theory Spec2Isabelle
  imports Complex_Main
begin

section \<open>Values of type double\<close>

text \<open>
  A C++ \<open>double\<close> is modelled by its IEEE-754 value class: a finite number, one of the
  two infinities, or a NaN. Arithmetic on finite numbers is exact real arithmetic; the
  special values follow the IEEE rules (a NaN operand gives NaN, \<open>\<infinity> - \<infinity>\<close> and
  \<open>0 * \<infinity>\<close> and \<open>0 / 0\<close> give NaN, \<open>x / 0\<close> is an infinity for \<open>x \<noteq> 0\<close>).
  Rounding, overflow of a finite result, underflow and the sign of zero are not
  modelled (a zero divisor counts as \<open>+0\<close>).
\<close>

datatype double = Fin real | PInf | MInf | NaN

fun dneg :: "double \<Rightarrow> double" where
  "dneg (Fin a) = Fin (- a)"
| "dneg PInf = MInf"
| "dneg MInf = PInf"
| "dneg NaN = NaN"

fun dadd :: "double \<Rightarrow> double \<Rightarrow> double" where
  "dadd (Fin a) (Fin b) = Fin (a + b)"
| "dadd (Fin a) PInf = PInf"
| "dadd (Fin a) MInf = MInf"
| "dadd PInf (Fin b) = PInf"
| "dadd MInf (Fin b) = MInf"
| "dadd PInf PInf = PInf"
| "dadd MInf MInf = MInf"
| "dadd PInf MInf = NaN"
| "dadd MInf PInf = NaN"
| "dadd NaN y = NaN"
| "dadd x NaN = NaN"

definition signed_inf :: "real \<Rightarrow> double" where
  "signed_inf s = (if s = 0 then NaN else if 0 < s then PInf else MInf)"

fun dmul :: "double \<Rightarrow> double \<Rightarrow> double" where
  "dmul (Fin a) (Fin b) = Fin (a * b)"
| "dmul (Fin a) PInf = signed_inf a"
| "dmul (Fin a) MInf = signed_inf (- a)"
| "dmul PInf (Fin b) = signed_inf b"
| "dmul MInf (Fin b) = signed_inf (- b)"
| "dmul PInf PInf = PInf"
| "dmul MInf MInf = PInf"
| "dmul PInf MInf = MInf"
| "dmul MInf PInf = MInf"
| "dmul NaN y = NaN"
| "dmul x NaN = NaN"

fun ddiv :: "double \<Rightarrow> double \<Rightarrow> double" where
  "ddiv (Fin a) (Fin b) = (if b = 0 then signed_inf a else Fin (a / b))"
| "ddiv (Fin a) PInf = Fin 0"
| "ddiv (Fin a) MInf = Fin 0"
| "ddiv PInf (Fin b) = (if 0 \<le> b then PInf else MInf)"
| "ddiv MInf (Fin b) = (if 0 \<le> b then MInf else PInf)"
| "ddiv PInf PInf = NaN"
| "ddiv MInf MInf = NaN"
| "ddiv PInf MInf = NaN"
| "ddiv MInf PInf = NaN"
| "ddiv NaN y = NaN"
| "ddiv x NaN = NaN"

text \<open>
  The source calls \<open>abs\<close> on doubles; it is read as the absolute value of a double (the
  \<open>|volatility|\<close> and \<open>|sentiment|\<close> of the specification), not as the \<open>abs\<close> of \<open>int\<close>.
\<close>

fun dabs :: "double \<Rightarrow> double" where
  "dabs (Fin a) = Fin \<bar>a\<bar>"
| "dabs PInf = PInf"
| "dabs MInf = PInf"
| "dabs NaN = NaN"

text \<open>\<open>sqrt\<close>, \<open>exp\<close> and \<open>log\<close> of \<open><cmath>\<close>.\<close>

fun dsqrt :: "double \<Rightarrow> double" where
  "dsqrt (Fin a) = (if 0 \<le> a then Fin (sqrt a) else NaN)"
| "dsqrt PInf = PInf"
| "dsqrt MInf = NaN"
| "dsqrt NaN = NaN"

fun dexp :: "double \<Rightarrow> double" where
  "dexp (Fin a) = Fin (exp a)"
| "dexp PInf = PInf"
| "dexp MInf = Fin 0"
| "dexp NaN = NaN"

fun dlog :: "double \<Rightarrow> double" where
  "dlog (Fin a) = (if 0 < a then Fin (ln a) else if a = 0 then MInf else NaN)"
| "dlog PInf = PInf"
| "dlog MInf = NaN"
| "dlog NaN = NaN"

text \<open>
  \<open>pow\<close> of \<open><cmath>\<close>. The program calls it on finite arguments only; the other cases
  follow Annex F of the C standard.
\<close>

definition is_odd_integer :: "real \<Rightarrow> bool" where
  "is_odd_integer y = (y = of_int \<lfloor>y\<rfloor> \<and> odd \<lfloor>y\<rfloor>)"

fun dpow :: "double \<Rightarrow> double \<Rightarrow> double" where
  "dpow (Fin x) (Fin y) =
     (if y = 0 \<or> x = 1 then Fin 1
      else if 0 < x then Fin (x powr y)
      else if x = 0 then (if y < 0 then PInf else Fin 0)
      else if y = of_int \<lfloor>y\<rfloor> then Fin ((if odd \<lfloor>y\<rfloor> then - 1 else 1) * (- x) powr y)
      else NaN)"
| "dpow (Fin x) PInf =
     (if x = 1 \<or> x = - 1 then Fin 1 else if \<bar>x\<bar> < 1 then Fin 0 else PInf)"
| "dpow (Fin x) MInf =
     (if x = 1 \<or> x = - 1 then Fin 1 else if \<bar>x\<bar> < 1 then PInf else Fin 0)"
| "dpow PInf (Fin y) = (if y = 0 then Fin 1 else if y < 0 then Fin 0 else PInf)"
| "dpow MInf (Fin y) =
     (if y = 0 then Fin 1 else if y < 0 then Fin 0
      else if is_odd_integer y then MInf else PInf)"
| "dpow PInf PInf = PInf"
| "dpow MInf PInf = PInf"
| "dpow PInf MInf = Fin 0"
| "dpow MInf MInf = Fin 0"
| "dpow NaN (Fin y) = (if y = 0 then Fin 1 else NaN)"
| "dpow (Fin x) NaN = (if x = 1 then Fin 1 else NaN)"
| "dpow x y = NaN"

text \<open>The operators of the source text, for reading the definitions against it.\<close>

instantiation double :: "{plus, minus, uminus, times, inverse, abs}"
begin

definition plus_double :: "double \<Rightarrow> double \<Rightarrow> double" where
  "plus_double a b = dadd a b"

definition minus_double :: "double \<Rightarrow> double \<Rightarrow> double" where
  "minus_double a b = dadd a (dneg b)"

definition uminus_double :: "double \<Rightarrow> double" where
  "uminus_double a = dneg a"

definition times_double :: "double \<Rightarrow> double \<Rightarrow> double" where
  "times_double a b = dmul a b"

definition divide_double :: "double \<Rightarrow> double \<Rightarrow> double" where
  "divide_double a b = ddiv a b"

definition inverse_double :: "double \<Rightarrow> double" where
  "inverse_double a = ddiv (Fin 1) a"

definition abs_double :: "double \<Rightarrow> double" where
  "abs_double a = dabs a"

instance ..

end

text \<open>Conversion of an \<open>int\<close> to \<open>double\<close>.\<close>

definition of_int_d :: "int \<Rightarrow> double" where
  "of_int_d n = Fin (of_int n)"

text \<open>The comparison \<open>==\<close>: a NaN is equal to nothing.\<close>

definition deq :: "double \<Rightarrow> double \<Rightarrow> bool" where
  "deq a b = (a \<noteq> NaN \<and> b \<noteq> NaN \<and> a = b)"

text \<open>
  \<open>std::isnormal\<close>: finite, not zero and not subnormal. \<open>DBL_MIN\<close> is the least positive
  normal double, \<open>2\<^sup>-\<^sup>1\<^sup>0\<^sup>2\<^sup>2\<close>.
\<close>

definition DBL_MIN :: real where
  "DBL_MIN = 1 / 2 ^ 1022"

fun isnormal :: "double \<Rightarrow> bool" where
  "isnormal (Fin a) = (DBL_MIN \<le> \<bar>a\<bar>)"
| "isnormal PInf = False"
| "isnormal MInf = False"
| "isnormal NaN = False"

fun isfinite :: "double \<Rightarrow> bool" where
  "isfinite (Fin a) = True"
| "isfinite PInf = False"
| "isfinite MInf = False"
| "isfinite NaN = False"

section \<open>The model parameters\<close>

text \<open>
  \<open>JointParameters\<close> is declared in a header outside the sources; its fields are the
  seven that \<open>simulate_joint_process\<close> reads.
\<close>

record JointParameters =
  mu_p :: double
  gamma_p :: double
  gamma_v :: double
  mu_v :: double
  beta_v :: double
  sigma_v :: double
  rho_pv :: double

section \<open>The path simulator \<open>simulate_joint_process\<close>\<close>

text \<open>
  An array reached through a \<open>double *\<close> is the function from offsets to contents; the
  arrays of one call do not overlap. The values that successive calls
  \<open>distribution(generator)\<close> return are the sequence \<open>draws 0, draws 1, \<dots>\<close>, and
  \<open>drawn\<close> counts how many have been taken.
\<close>

record sim_state =
  sim_price :: "nat \<Rightarrow> double"
  sim_volatility :: "nat \<Rightarrow> double"
  drawn :: nat

text \<open>Lines 44-45: the two correlated increments \<open>(W_p, W_v)\<close> from the next two draws.\<close>

definition sim_wiener :: "double \<Rightarrow> (nat \<Rightarrow> double) \<Rightarrow> nat \<Rightarrow> double \<times> double" where
  "sim_wiener rho draws n =
     (let W_v = draws n;
          W_p = dsqrt (Fin 1 - rho * rho) * draws (n + 1) + rho * W_v
      in (W_p, W_v))"

text \<open>Lines 47-53: one Euler-Maruyama sub-step on the pair \<open>(price[i], volatility[i])\<close>.\<close>

definition sim_euler ::
  "JointParameters \<Rightarrow> double \<Rightarrow> double \<Rightarrow> double \<Rightarrow> double \<Rightarrow> double \<Rightarrow>
   double \<times> double \<Rightarrow> double \<times> double" where
  "sim_euler P delta sqrt_delta W_p W_v sent pv =
     (let p = fst pv; v = snd pv;
          mp = gamma_p P * (mu_p P - p);
          sp = p * dsqrt \<bar>v\<bar>;
          p' = p + (mp * delta + W_p * sp * sqrt_delta);
          mv = gamma_v P * (mu_v P + beta_v P * \<bar>sent\<bar> - v);
          sv = sigma_v P * dsqrt \<bar>v\<bar>;
          v' = v + (mv * delta + W_v * sv * sqrt_delta)
      in (p', v'))"

text \<open>Lines 42-54: the body of the loop over \<open>j\<close>, at observation index \<open>i\<close>.\<close>

definition sim_substep ::
  "JointParameters \<Rightarrow> (nat \<Rightarrow> double) \<Rightarrow> (nat \<Rightarrow> double) \<Rightarrow> double \<Rightarrow> double \<Rightarrow>
   nat \<Rightarrow> sim_state \<Rightarrow> sim_state" where
  "sim_substep P draws sentiment delta sqrt_delta i s =
     (let W = sim_wiener (rho_pv P) draws (drawn s);
          pv = sim_euler P delta sqrt_delta (fst W) (snd W) (sentiment i)
                 (sim_price s i, sim_volatility s i)
      in \<lparr>sim_price = (sim_price s)(i := fst pv),
          sim_volatility = (sim_volatility s)(i := snd pv),
          drawn = drawn s + 2\<rparr>)"

text \<open>Lines 37-55: the body of the loop over \<open>i\<close>.\<close>

definition sim_obs_step ::
  "JointParameters \<Rightarrow> (nat \<Rightarrow> double) \<Rightarrow> (nat \<Rightarrow> double) \<Rightarrow> double \<Rightarrow> double \<Rightarrow>
   nat \<Rightarrow> nat \<Rightarrow> sim_state \<Rightarrow> sim_state" where
  "sim_obs_step P draws sentiment delta sqrt_delta m_obs i s =
     (let s1 = s\<lparr>sim_volatility := (sim_volatility s)(i := sim_volatility s (i - 1))\<rparr>;
          s2 = s1\<lparr>sim_price := (sim_price s1)(i := sim_price s1 (i - 1))\<rparr>
      in fold (\<lambda>j. sim_substep P draws sentiment delta sqrt_delta i) [0..<m_obs] s2)"

text \<open>
  The whole function. The arguments \<open>prices\<close> and \<open>vols\<close> are the contents of the output
  arrays at the call; the result is their contents at the return. The counters are
  \<open>int\<close>s compared with \<open>!=\<close>: with \<open>N_obs < 1\<close> or \<open>M_obs < 0\<close> a counter runs past
  its arrays, which has no defined behaviour (\<open>None\<close>).
\<close>

definition simulate_joint_process ::
  "(nat \<Rightarrow> double) \<Rightarrow> (nat \<Rightarrow> double) \<Rightarrow> (nat \<Rightarrow> double) \<Rightarrow> (nat \<Rightarrow> double) \<Rightarrow>
   JointParameters \<Rightarrow> double \<Rightarrow> int \<Rightarrow> int \<Rightarrow> double \<Rightarrow> double \<Rightarrow>
   ((nat \<Rightarrow> double) \<times> (nat \<Rightarrow> double)) option" where
  "simulate_joint_process draws prices vols sentiment parameters dtime n_obs m_obs p0 v0 =
     (if n_obs < 1 \<or> m_obs < 0 then None
      else
        let delta = dtime / of_int_d m_obs;
            sqrt_delta = dsqrt delta;
            s0 = \<lparr>sim_price = prices(0 := p0), sim_volatility = vols(0 := v0), drawn = 0\<rparr>;
            s = fold (sim_obs_step parameters draws sentiment delta sqrt_delta (nat m_obs))
                  [1..<nat n_obs] s0
        in Some (sim_price s, sim_volatility s))"

section \<open>The likelihood evaluator \<open>simulated_ll_joint\<close>\<close>

text \<open>
  The data behind the \<open>void *\<close> argument. The nine buffers do not overlap. The first
  three and the two \<open>random_buffer\<close>s are only read; the other four are scratch space
  that the function overwrites.
\<close>

record WrapperSimulatedJoint =
  price :: "nat \<Rightarrow> double"
  volatility :: "nat \<Rightarrow> double"
  interpolated_sentiment :: "nat \<Rightarrow> double"
  simulated_price :: "nat \<Rightarrow> double"
  simulated_volatility :: "nat \<Rightarrow> double"
  random_buffer_price :: "nat \<Rightarrow> double"
  random_buffer_volatility :: "nat \<Rightarrow> double"
  wiener_volatility :: "nat \<Rightarrow> double"
  wiener_price :: "nat \<Rightarrow> double"
  N_obs :: int
  N_sim :: int
  M_sim :: int
  dt :: double

text \<open>The buffers together with the two accumulators of the main loop.\<close>

record eval_state =
  wrapper :: WrapperSimulatedJoint
  ll :: double
  kernel_sum :: double

text \<open>Lines 62-68: the parameter vector, read by position.\<close>

definition unwrap_parameters :: "double list \<Rightarrow> JointParameters" where
  "unwrap_parameters x =
     \<lparr>mu_p = x ! 1, gamma_p = x ! 0, gamma_v = x ! 2, mu_v = x ! 3, beta_v = x ! 4,
      sigma_v = x ! 5, rho_pv = x ! 6\<rparr>"

text \<open>Lines 88-91: the bandwidth fraction.\<close>

definition h_frac :: "int \<Rightarrow> double" where
  "h_frac n_sim =
     (let dimy = of_int_d 1;
          undersmooth = Fin (1 / 2)
      in dpow (Fin 4 / dimy + Fin 2) (Fin 1 / (dimy + Fin 4))
         * dpow (of_int_d n_sim) (- (Fin 1 + undersmooth) / (dimy + Fin 4)))"

text \<open>Lines 101-105: the correlated increments of the whole ensemble.\<close>

definition fill_wiener_at :: "double \<Rightarrow> nat \<Rightarrow> WrapperSimulatedJoint \<Rightarrow> WrapperSimulatedJoint" where
  "fill_wiener_at rho i w =
     (let W_v = (wiener_volatility w)(i := random_buffer_volatility w i);
          W_p = (wiener_price w)
                  (i := dsqrt (Fin 1 - rho * rho) * random_buffer_price w i + rho * W_v i)
      in w\<lparr>wiener_volatility := W_v, wiener_price := W_p\<rparr>)"

definition fill_wiener :: "double \<Rightarrow> WrapperSimulatedJoint \<Rightarrow> WrapperSimulatedJoint" where
  "fill_wiener rho w = fold (fill_wiener_at rho) [0..<nat (N_sim w * M_sim w)] w"

text \<open>Lines 117-122: one sub-step on the pair \<open>(simulated_price[j], simulated_volatility[j])\<close>.\<close>

definition ll_euler ::
  "JointParameters \<Rightarrow> double \<Rightarrow> double \<Rightarrow> double \<Rightarrow> double \<Rightarrow> double \<Rightarrow>
   double \<times> double \<Rightarrow> double \<times> double" where
  "ll_euler P delta sqrt_delta W_p W_v sent pv =
     (let p = fst pv; v = snd pv;
          mp = gamma_p P * (mu_p P - p);
          sqrt_vol = p * dsqrt \<bar>v\<bar>;
          p' = p + (mp * delta + W_p * sqrt_vol * sqrt_delta);
          mv = gamma_v P * (mu_v P + beta_v P * \<bar>sent\<bar> - v);
          v' = v + (mv * delta + W_v * sqrt_vol * sigma_v P * sqrt_delta)
      in (p', v'))"

text \<open>Lines 115-123: the body of the loop over \<open>k\<close>, for member \<open>j\<close> at observation \<open>i\<close>.\<close>

definition ll_substep ::
  "JointParameters \<Rightarrow> double \<Rightarrow> double \<Rightarrow> nat \<Rightarrow> nat \<Rightarrow> nat \<Rightarrow>
   WrapperSimulatedJoint \<Rightarrow> WrapperSimulatedJoint" where
  "ll_substep P delta sqrt_delta i j k w =
     (let m = nat (M_sim w);
          pv = ll_euler P delta sqrt_delta (wiener_price w (j * m + k))
                 (wiener_volatility w (j * m + k))
                 (interpolated_sentiment w ((i - 1) * m + k))
                 (simulated_price w j, simulated_volatility w j)
      in w\<lparr>simulated_price := (simulated_price w)(j := fst pv),
           simulated_volatility := (simulated_volatility w)(j := snd pv)\<rparr>)"

text \<open>Lines 110-124: the body of the loop over \<open>j\<close>.\<close>

definition ll_member ::
  "JointParameters \<Rightarrow> double \<Rightarrow> double \<Rightarrow> nat \<Rightarrow> nat \<Rightarrow>
   WrapperSimulatedJoint \<Rightarrow> WrapperSimulatedJoint" where
  "ll_member P delta sqrt_delta i j w =
     (let w1 = w\<lparr>simulated_price := (simulated_price w)(j := price w (i - 1))\<rparr>;
          w2 = w1\<lparr>simulated_volatility := (simulated_volatility w1)(j := volatility w1 (i - 1))\<rparr>
      in fold (ll_substep P delta sqrt_delta i j) [0..<nat (M_sim w)] w2)"

text \<open>Lines 132-134: the body of the kernel loop, adding member \<open>j\<close> to \<open>kernel_sum\<close>.\<close>

definition kernel_add ::
  "double \<Rightarrow> double \<Rightarrow> double \<Rightarrow> WrapperSimulatedJoint \<Rightarrow> nat \<Rightarrow> nat \<Rightarrow> double \<Rightarrow> double" where
  "kernel_add sqrt_pi h_price h_volatility w i j ks =
     (let sp = simulated_price w j; sv = simulated_volatility w j;
          kernel_sum_price =
            dexp (((- (sp - price w i)) * (sp - price w i)) / (Fin 2 * h_price * h_price))
            / (h_price * sqrt_pi);
          kernel_sum_volatility =
            dexp (((- (sv - volatility w i)) * (sv - volatility w i))
                  / (Fin 2 * h_volatility * h_volatility))
            / (h_volatility * sqrt_pi)
      in ks + kernel_sum_volatility * kernel_sum_price)"

text \<open>
  Lines 108-139: one observation step, up to the reset of \<open>kernel_sum\<close>. The function
  \<open>st_dev\<close> is declared in a header outside the sources: it is a parameter here, a
  function of the \<open>N_sim\<close> entries it is called on.
\<close>

definition ll_obs_step ::
  "(double list \<Rightarrow> double) \<Rightarrow> JointParameters \<Rightarrow> double \<Rightarrow> double \<Rightarrow> double \<Rightarrow> double \<Rightarrow>
   nat \<Rightarrow> eval_state \<Rightarrow> eval_state" where
  "ll_obs_step st_dev P delta sqrt_delta sqrt_pi hf i s =
     (let n = nat (N_sim (wrapper s));
          w = fold (ll_member P delta sqrt_delta i) [0..<n] (wrapper s);
          h_price = hf * st_dev (map (simulated_price w) [0..<n]);
          h_volatility = hf * st_dev (map (simulated_volatility w) [0..<n]);
          ks = fold (kernel_add sqrt_pi h_price h_volatility w i) [0..<n] (kernel_sum s);
          ll' = ll s + dlog (ks / of_int_d (N_sim w))
      in \<lparr>wrapper = w, ll = ll', kernel_sum = Fin 0\<rparr>)"

text \<open>Line 143: the test of the fast exit.\<close>

definition infinity_check :: "double \<Rightarrow> bool" where
  "infinity_check l = (deq l MInf \<or> \<not> isnormal l)"

text \<open>
  Lines 108-150: the main loop over the observation indices still to do, and the final
  \<open>return -ll\<close>. The flag \<open>chk\<close> says whether \<open>INFINITY_CHECK\<close> is defined. The result is
  the returned value and the buffers as the function leaves them.
\<close>

fun ll_obs_loop ::
  "bool \<Rightarrow> double \<Rightarrow> (nat \<Rightarrow> eval_state \<Rightarrow> eval_state) \<Rightarrow> nat list \<Rightarrow> eval_state \<Rightarrow>
   double \<times> WrapperSimulatedJoint" where
  "ll_obs_loop chk max_double step [] s = (- ll s, wrapper s)"
| "ll_obs_loop chk max_double step (i # is) s =
     (let s' = step i s
      in if chk \<and> infinity_check (ll s') then (max_double, wrapper s')
         else ll_obs_loop chk max_double step is s')"

text \<open>
  The sizes for which the loops stay inside their arrays and the index arithmetic
  inside \<open>int\<close>.
\<close>

definition INT_MAX :: int where
  "INT_MAX = 2 ^ 31 - 1"

definition sizes_defined :: "WrapperSimulatedJoint \<Rightarrow> bool" where
  "sizes_defined w =
     (1 \<le> N_obs w \<and> 0 \<le> N_sim w \<and> 0 \<le> M_sim w \<and> N_sim w * M_sim w \<le> INT_MAX
      \<and> (N_sim w = 0 \<or> (N_obs w - 1) * M_sim w \<le> INT_MAX))"

text \<open>
  The whole function. \<open>INFINITY_CHECK\<close> is a preprocessor symbol and \<open>max_double\<close> a
  constant of a header outside the sources: both are parameters. The argument \<open>grad\<close> is
  never used. A vector \<open>x\<close> shorter than seven entries is read out of range (\<open>None\<close>).
\<close>

definition simulated_ll_joint ::
  "bool \<Rightarrow> double \<Rightarrow> (double list \<Rightarrow> double) \<Rightarrow> double list \<Rightarrow> WrapperSimulatedJoint \<Rightarrow>
   (double \<times> WrapperSimulatedJoint) option" where
  "simulated_ll_joint INFINITY_CHECK max_double st_dev x w =
     (if length x < 7 \<or> \<not> sizes_defined w then None
      else
        let P = unwrap_parameters x;
            sqrt_pi = dsqrt (Fin 2 * Fin pi);
            hf = h_frac (N_sim w);
            delta = dt w / of_int_d (M_sim w);
            sqrt_delta = dsqrt delta;
            w1 = fill_wiener (rho_pv P) w
        in Some (ll_obs_loop INFINITY_CHECK max_double
                   (ll_obs_step st_dev P delta sqrt_delta sqrt_pi hf)
                   [1..<nat (N_obs w)]
                   \<lparr>wrapper = w1, ll = Fin 0, kernel_sum = Fin 0\<rparr>))"

section \<open>Notions used to state the properties\<close>

text \<open>
  The path of ensemble member \<open>j\<close> over the first \<open>n\<close> sub-steps of observation step \<open>i\<close>:
  the sub-step of the evaluator iterated from the observed pair
  \<open>(price[i-1], volatility[i-1])\<close>.
\<close>

definition member_path ::
  "JointParameters \<Rightarrow> double \<Rightarrow> double \<Rightarrow> WrapperSimulatedJoint \<Rightarrow> nat \<Rightarrow> nat \<Rightarrow> nat \<Rightarrow>
   double \<times> double" where
  "member_path P delta sqrt_delta w i j n =
     fold (\<lambda>k. ll_euler P delta sqrt_delta
                 (wiener_price w (j * nat (M_sim w) + k))
                 (wiener_volatility w (j * nat (M_sim w) + k))
                 (interpolated_sentiment w ((i - 1) * nat (M_sim w) + k)))
       [0..<n] (price w (i - 1), volatility w (i - 1))"



text \<open>
  Two calls get the same inputs when the grid sizes and \<open>dt\<close> are equal and the observed
  series and the innovation buffers agree over their lengths. Nothing is asked of the
  four scratch buffers.
\<close>

definition same_inputs :: "WrapperSimulatedJoint \<Rightarrow> WrapperSimulatedJoint \<Rightarrow> bool" where
  "same_inputs w w' =
     (N_obs w = N_obs w' \<and> N_sim w = N_sim w' \<and> M_sim w = M_sim w' \<and> dt w = dt w'
      \<and> (\<forall>i < nat (N_obs w). price w i = price w' i \<and> volatility w i = volatility w' i)
      \<and> (\<forall>i < nat ((N_obs w - 1) * M_sim w).
            interpolated_sentiment w i = interpolated_sentiment w' i)
      \<and> (\<forall>i < nat (N_sim w * M_sim w).
            random_buffer_price w i = random_buffer_price w' i
            \<and> random_buffer_volatility w i = random_buffer_volatility w' i))"

text \<open>Two states of the main loop that differ at most in what the scratch buffers hold
  outside the part the loop reads.\<close>

definition eval_equiv :: "eval_state \<Rightarrow> eval_state \<Rightarrow> bool" where
  "eval_equiv s s' =
     (same_inputs (wrapper s) (wrapper s')
      \<and> (\<forall>i < nat (N_sim (wrapper s) * M_sim (wrapper s)).
            wiener_price (wrapper s) i = wiener_price (wrapper s') i
            \<and> wiener_volatility (wrapper s) i = wiener_volatility (wrapper s') i)
      \<and> ll s = ll s' \<and> kernel_sum s = kernel_sum s')"

text \<open>
  The state of the main loop of a call on \<open>x\<close> and \<open>w\<close>: at its start, and after the
  observation steps \<open>1, \<dots>, k\<close> when no fast exit is taken.
\<close>

definition ll_step_of ::
  "(double list \<Rightarrow> double) \<Rightarrow> double list \<Rightarrow> WrapperSimulatedJoint \<Rightarrow> nat \<Rightarrow>
   eval_state \<Rightarrow> eval_state" where
  "ll_step_of st_dev x w =
     ll_obs_step st_dev (unwrap_parameters x) (dt w / of_int_d (M_sim w))
       (dsqrt (dt w / of_int_d (M_sim w))) (dsqrt (Fin 2 * Fin pi)) (h_frac (N_sim w))"

definition ll_start :: "double list \<Rightarrow> WrapperSimulatedJoint \<Rightarrow> eval_state" where
  "ll_start x w =
     \<lparr>wrapper = fill_wiener (rho_pv (unwrap_parameters x)) w, ll = Fin 0, kernel_sum = Fin 0\<rparr>"

definition ll_after ::
  "(double list \<Rightarrow> double) \<Rightarrow> double list \<Rightarrow> WrapperSimulatedJoint \<Rightarrow> nat \<Rightarrow> eval_state" where
  "ll_after st_dev x w k = fold (ll_step_of st_dev x w) [1..<Suc k] (ll_start x w)"

text \<open>
  The claim about the parameter vector in its own words. The path of member \<open>j\<close> in
  observation step \<open>i\<close>, written with the entries of \<open>x\<close> in the roles the claim gives
  them: \<open>x[0]\<close> the speed and \<open>x[1]\<close> the long-run mean of the price drift, \<open>x[2]\<close> the
  speed and \<open>x[3]\<close> the long-run mean of the volatility drift, \<open>x[4]\<close> the factor of
  \<open>|sentiment|\<close>, \<open>x[5]\<close> the scale of the volatility diffusion, \<open>x[6]\<close> the correlation
  that mixes the two raw draws. The diffusion term \<open>p * sqrt |v|\<close> is the one the
  evaluator has in both updates.
\<close>

definition positional_path ::
  "double list \<Rightarrow> WrapperSimulatedJoint \<Rightarrow> nat \<Rightarrow> nat \<Rightarrow> double \<times> double" where
  "positional_path x w i j =
     fold (\<lambda>k pv.
             let p = fst pv; v = snd pv;
                 delta = dt w / of_int_d (M_sim w);
                 W_v = random_buffer_volatility w (j * nat (M_sim w) + k);
                 W_p = dsqrt (Fin 1 - x ! 6 * x ! 6)
                         * random_buffer_price w (j * nat (M_sim w) + k)
                       + x ! 6 * W_v;
                 sent = interpolated_sentiment w ((i - 1) * nat (M_sim w) + k)
             in (p + (x ! 0 * (x ! 1 - p) * delta + W_p * (p * dsqrt \<bar>v\<bar>) * dsqrt delta),
                 v + (x ! 2 * (x ! 3 + x ! 4 * \<bar>sent\<bar> - v) * delta
                      + W_v * (p * dsqrt \<bar>v\<bar>) * x ! 5 * dsqrt delta)))
       [0..<nat (M_sim w)] (price w (i - 1), volatility w (i - 1))"

text \<open>
  The log-likelihood accumulated over the observation steps \<open>1, \<dots>, k\<close> from the ensembles
  of these paths.
\<close>

fun positional_ll ::
  "(double list \<Rightarrow> double) \<Rightarrow> double list \<Rightarrow> WrapperSimulatedJoint \<Rightarrow> nat \<Rightarrow> double" where
  "positional_ll st_dev x w 0 = Fin 0"
| "positional_ll st_dev x w (Suc k) =
     (let n = nat (N_sim w);
          e = w\<lparr>simulated_price := (\<lambda>j. fst (positional_path x w (Suc k) j)),
                simulated_volatility := (\<lambda>j. snd (positional_path x w (Suc k) j))\<rparr>;
          h_price = h_frac (N_sim w) * st_dev (map (simulated_price e) [0..<n]);
          h_volatility = h_frac (N_sim w) * st_dev (map (simulated_volatility e) [0..<n])
      in positional_ll st_dev x w k
         + dlog (fold (kernel_add (dsqrt (Fin 2 * Fin pi)) h_price h_volatility e (Suc k))
                   [0..<n] (Fin 0)
                 / of_int_d (N_sim w)))"

text \<open>Entry \<open>i\<close> of an output array of the simulator.\<close>

definition output_price ::
  "((nat \<Rightarrow> double) \<times> (nat \<Rightarrow> double)) option \<Rightarrow> nat \<Rightarrow> double option" where
  "output_price r i = (case r of None \<Rightarrow> None | Some pv \<Rightarrow> Some (fst pv i))"

definition output_volatility ::
  "((nat \<Rightarrow> double) \<times> (nat \<Rightarrow> double)) option \<Rightarrow> nat \<Rightarrow> double option" where
  "output_volatility r i = (case r of None \<Rightarrow> None | Some pv \<Rightarrow> Some (snd pv i))"

section \<open>Concrete inputs\<close>

text \<open>
  Modelled from the spec: \<open>st_dev\<close> is the standard deviation of the ensemble; its code
  is outside the sources and the specification leaves its normalisation open. The
  examples use the population form (division by the number of entries).
\<close>

definition st_dev_population :: "double list \<Rightarrow> double" where
  "st_dev_population xs =
     (let n = of_int_d (int (length xs));
          mean = foldr (+) xs (Fin 0) / n
      in dsqrt (foldr (\<lambda>x acc. (x - mean) * (x - mean) + acc) xs (Fin 0) / n))"

text \<open>The largest finite double, as the value of \<open>max_double\<close> in the examples.\<close>

definition DBL_MAX :: real where
  "DBL_MAX = (2 ^ 53 - 1) * 2 ^ 971"

definition constant_series :: "real \<Rightarrow> nat \<Rightarrow> double" where
  "constant_series c i = Fin c"

definition alternating_series :: "real \<Rightarrow> nat \<Rightarrow> double" where
  "alternating_series c i = (if even i then Fin c else Fin (- c))"

definition spike_series :: "nat \<Rightarrow> double" where
  "spike_series i = (if i < 2 then Fin 1 else PInf)"

definition sentiment_01 :: "nat \<Rightarrow> double" where
  "sentiment_01 i = (if i = 0 then Fin 0 else Fin 1)"

definition drift_parameters :: JointParameters where
  "drift_parameters =
     \<lparr>mu_p = Fin 100, gamma_p = Fin 1, gamma_v = Fin 1, mu_v = Fin 0, beta_v = Fin 1,
      sigma_v = Fin 0, rho_pv = Fin 0\<rparr>"

definition diffusion_parameters :: JointParameters where
  "diffusion_parameters =
     \<lparr>mu_p = Fin 0, gamma_p = Fin 0, gamma_v = Fin 0, mu_v = Fin 0, beta_v = Fin 0,
      sigma_v = Fin 1, rho_pv = Fin 0\<rparr>"

definition still_parameters :: JointParameters where
  "still_parameters =
     \<lparr>mu_p = Fin 100, gamma_p = Fin 1, gamma_v = Fin 0, mu_v = Fin 0, beta_v = Fin 0,
      sigma_v = Fin 0, rho_pv = Fin (1 / 2)\<rparr>"

text \<open>
  An ensemble of two members with one sub-step: the two prices move by \<open>\<plusminus>1\<close> and the
  two volatilities by \<open>\<plusminus>c\<close> around the observed pair \<open>(1, 1)\<close>; \<open>n\<close> observations. The
  scratch buffers hold \<open>fill\<close> at the call.
\<close>

definition example_wrapper :: "real \<Rightarrow> int \<Rightarrow> real \<Rightarrow> WrapperSimulatedJoint" where
  "example_wrapper c n fill =
     \<lparr>price = spike_series, volatility = constant_series 1,
      interpolated_sentiment = constant_series 0,
      simulated_price = constant_series fill, simulated_volatility = constant_series fill,
      random_buffer_price = alternating_series 1, random_buffer_volatility = alternating_series c,
      wiener_volatility = constant_series fill, wiener_price = constant_series fill,
      N_obs = n, N_sim = 2, M_sim = 1, dt = Fin 1\<rparr>"

definition example_x :: "double list" where
  "example_x = [Fin 0, Fin 0, Fin 0, Fin 0, Fin 0, Fin 1, Fin 0]"

text \<open>A parameter vector with seven different entries, and the ensemble example with a
  sentiment of \<open>2\<close>.\<close>

definition order_x :: "double list" where
  "order_x = [Fin 2, Fin 3, Fin 5, Fin 7, Fin 11, Fin 13, Fin 1]"

definition order_wrapper :: WrapperSimulatedJoint where
  "order_wrapper = (example_wrapper 5 2 0)\<lparr>interpolated_sentiment := constant_series 2\<rparr>"

text \<open>The value of \<open>h_frac\<close> for two members, and the spreads \<open>c\<close> for which the first
  observation step adds exactly \<open>0\<close>, respectively exactly \<open>1\<close>, to the log-likelihood.\<close>

definition h_frac_2 :: real where
  "h_frac_2 = 6 powr (1 / 5) * 2 powr (- (3 / 10))"

definition flat_spread :: real where
  "flat_spread = exp (- (1 / (h_frac_2 * h_frac_2))) / (2 * pi * (h_frac_2 * h_frac_2))"

definition unit_spread :: real where
  "unit_spread = flat_spread / exp 1"

section \<open>Arithmetic of the model\<close>

lemmas double_ops = plus_double_def minus_double_def uminus_double_def times_double_def
  divide_double_def abs_double_def of_int_d_def

lemma isfinite_iff: "isfinite d \<longleftrightarrow> (\<exists>a. d = Fin a)"
  by (cases d) simp_all

lemma dmul_one [simp]: "dmul d (Fin 1) = d" "dmul (Fin 1) d = d"
  by (cases d; simp add: signed_inf_def)+

lemma dadd_zero [simp]: "dadd d (Fin 0) = d" "dadd (Fin 0) d = d"
  by (cases d; simp)+

lemma fold_upt_Suc: "fold f [0..<Suc n] w = f n (fold f [0..<n] w)"
  by simp

lemma upt_small: "[Suc 0..<2] = [Suc 0]" "[0..<2] = [0, Suc 0]" "[Suc 0..<3] = [Suc 0, 2]"
  by (simp_all add: numeral_2_eq_2 numeral_3_eq_3)

lemma index_bound: "j < n \<Longrightarrow> k < m \<Longrightarrow> j * m + k < n * (m::nat)"
proof -
  assume "j < n" "k < m"
  then have "j * m + k < Suc j * m" by simp
  also have "\<dots> \<le> n * m" using \<open>j < n\<close> by (intro mult_le_mono1) simp
  finally show ?thesis .
qed

section \<open>The simulator with vanishing volatility parameters\<close>

lemma sim_euler_degenerate:
  assumes P: "gamma_v P = Fin 0" "mu_v P = Fin 0" "beta_v P = Fin 0" "sigma_v P = Fin 0"
    and fin: "isfinite W_v" "isfinite sent" "isfinite delta" "isfinite sqrt_delta"
  shows "snd (sim_euler P delta sqrt_delta W_p W_v sent (p, Fin 0)) = Fin 0"
proof -
  from fin obtain a b c d
    where "W_v = Fin a" "sent = Fin b" "delta = Fin c" "sqrt_delta = Fin d"
    by (auto simp: isfinite_iff)
  with P show ?thesis by (simp add: sim_euler_def Let_def double_ops)
qed

lemma sim_substep_volatility:
  assumes P: "gamma_v P = Fin 0" "mu_v P = Fin 0" "beta_v P = Fin 0" "sigma_v P = Fin 0"
    and fin: "\<forall>n. isfinite (draws n)" "isfinite (sentiment i)"
      "isfinite delta" "isfinite sqrt_delta"
    and z: "sim_volatility s i = Fin 0"
  shows "sim_volatility (sim_substep P draws sentiment delta sqrt_delta i s) = sim_volatility s"
proof -
  have W: "isfinite (snd (sim_wiener (rho_pv P) draws (drawn s)))"
    using fin(1) by (simp add: sim_wiener_def Let_def)
  have "snd (sim_euler P delta sqrt_delta (fst (sim_wiener (rho_pv P) draws (drawn s)))
          (snd (sim_wiener (rho_pv P) draws (drawn s))) (sentiment i) (sim_price s i, Fin 0))
        = Fin 0"
    using P W fin(2-4) by (rule sim_euler_degenerate)
  then show ?thesis using z by (simp add: sim_substep_def Let_def fun_eq_iff)
qed

lemma sim_substeps_volatility:
  assumes P: "gamma_v P = Fin 0" "mu_v P = Fin 0" "beta_v P = Fin 0" "sigma_v P = Fin 0"
    and fin: "\<forall>n. isfinite (draws n)" "isfinite (sentiment i)"
      "isfinite delta" "isfinite sqrt_delta"
    and z: "sim_volatility s i = Fin 0"
  shows "sim_volatility (fold (\<lambda>j. sim_substep P draws sentiment delta sqrt_delta i) [0..<m] s)
       = sim_volatility s"
proof (induction m)
  case 0
  show ?case by simp
next
  case (Suc m)
  let ?s = "fold (\<lambda>j. sim_substep P draws sentiment delta sqrt_delta i) [0..<m] s"
  have "sim_volatility ?s i = Fin 0" using Suc z by simp
  with P fin
  have "sim_volatility (sim_substep P draws sentiment delta sqrt_delta i ?s) = sim_volatility ?s"
    by (rule sim_substep_volatility)
  with Suc show ?case by simp
qed

lemma sim_obs_step_volatility:
  assumes P: "gamma_v P = Fin 0" "mu_v P = Fin 0" "beta_v P = Fin 0" "sigma_v P = Fin 0"
    and fin: "\<forall>n. isfinite (draws n)" "isfinite (sentiment i)"
    and d: "m = 0 \<or> isfinite delta \<and> isfinite sqrt_delta"
    and z: "sim_volatility s (i - 1) = Fin 0"
  shows "sim_volatility (sim_obs_step P draws sentiment delta sqrt_delta m i s)
       = (sim_volatility s)(i := Fin 0)"
proof (cases "m = 0")
  case True
  with z show ?thesis by (simp add: sim_obs_step_def Let_def)
next
  case False
  with d have d': "isfinite delta" "isfinite sqrt_delta" by simp_all
  let ?s2 = "s\<lparr>sim_volatility := (sim_volatility s)(i := sim_volatility s (i - 1)),
               sim_price := (sim_price s)(i := sim_price s (i - 1))\<rparr>"
  have "sim_volatility ?s2 i = Fin 0" using z by simp
  with P fin d'
  have "sim_volatility (fold (\<lambda>j. sim_substep P draws sentiment delta sqrt_delta i) [0..<m] ?s2)
       = sim_volatility ?s2"
    by (rule sim_substeps_volatility)
  then show ?thesis using z by (simp add: sim_obs_step_def Let_def)
qed

lemma sim_loop_volatility:
  assumes P: "gamma_v P = Fin 0" "mu_v P = Fin 0" "beta_v P = Fin 0" "sigma_v P = Fin 0"
    and fin: "\<forall>n. isfinite (draws n)"
      "\<forall>i. 1 \<le> i \<and> i < Suc n \<longrightarrow> isfinite (sentiment i)"
    and d: "m = 0 \<or> isfinite delta \<and> isfinite sqrt_delta"
    and z: "sim_volatility s 0 = Fin 0"
  shows "\<forall>i < Suc n.
     sim_volatility (fold (sim_obs_step P draws sentiment delta sqrt_delta m) [1..<Suc n] s) i
     = Fin 0"
  using fin(2)
proof (induction n)
  case 0
  with z show ?case by simp
next
  case (Suc n)
  let ?s = "fold (sim_obs_step P draws sentiment delta sqrt_delta m) [1..<Suc n] s"
  from Suc have IH: "\<forall>i < Suc n. sim_volatility ?s i = Fin 0" by simp
  then have prev: "sim_volatility ?s (Suc n - 1) = Fin 0" by simp
  have "isfinite (sentiment (Suc n))" using Suc.prems by simp
  with P fin(1)
  have "sim_volatility (sim_obs_step P draws sentiment delta sqrt_delta m (Suc n) ?s)
       = (sim_volatility ?s)(Suc n := Fin 0)"
    using d prev by (rule sim_obs_step_volatility)
  with IH show ?case by (simp add: less_Suc_eq)
qed

section \<open>The loops of the evaluator in closed form\<close>

lemma fill_wiener_fold:
  "fold (fill_wiener_at rho) [0..<n] w =
     w\<lparr>wiener_volatility :=
         (\<lambda>i. if i < n then random_buffer_volatility w i else wiener_volatility w i),
       wiener_price :=
         (\<lambda>i. if i < n
              then dsqrt (Fin 1 - rho * rho) * random_buffer_price w i
                   + rho * random_buffer_volatility w i
              else wiener_price w i)\<rparr>"
proof (induction n)
  case 0
  show ?case by (rule WrapperSimulatedJoint.equality) simp_all
next
  case (Suc n)
  show ?case
    unfolding fold_upt_Suc Suc
    by (rule WrapperSimulatedJoint.equality)
       (simp_all add: fill_wiener_at_def Let_def fun_eq_iff less_Suc_eq)
qed

lemma substeps_fold:
  "fold (ll_substep P delta sqrt_delta i j) [0..<n] w =
     w\<lparr>simulated_price := (simulated_price w)
         (j := fst (fold (\<lambda>k. ll_euler P delta sqrt_delta
                 (wiener_price w (j * nat (M_sim w) + k))
                 (wiener_volatility w (j * nat (M_sim w) + k))
                 (interpolated_sentiment w ((i - 1) * nat (M_sim w) + k)))
              [0..<n] (simulated_price w j, simulated_volatility w j))),
       simulated_volatility := (simulated_volatility w)
         (j := snd (fold (\<lambda>k. ll_euler P delta sqrt_delta
                 (wiener_price w (j * nat (M_sim w) + k))
                 (wiener_volatility w (j * nat (M_sim w) + k))
                 (interpolated_sentiment w ((i - 1) * nat (M_sim w) + k)))
              [0..<n] (simulated_price w j, simulated_volatility w j)))\<rparr>"
proof (induction n)
  case 0
  show ?case by (rule WrapperSimulatedJoint.equality) simp_all
next
  case (Suc n)
  show ?case
    unfolding fold_upt_Suc [of "ll_substep P delta sqrt_delta i j"] Suc
    by (rule WrapperSimulatedJoint.equality)
       (simp_all add: ll_substep_def Let_def fun_eq_iff)
qed

lemma ll_member_eq:
  "ll_member P delta sqrt_delta i j w =
     w\<lparr>simulated_price := (simulated_price w)
         (j := fst (member_path P delta sqrt_delta w i j (nat (M_sim w)))),
       simulated_volatility := (simulated_volatility w)
         (j := snd (member_path P delta sqrt_delta w i j (nat (M_sim w))))\<rparr>"
  unfolding ll_member_def Let_def substeps_fold
  by (rule WrapperSimulatedJoint.equality) (simp_all add: member_path_def)

lemma member_path_frame:
  "member_path P delta sqrt_delta (w\<lparr>simulated_price := a, simulated_volatility := b\<rparr>) i j n
   = member_path P delta sqrt_delta w i j n"
  by (simp add: member_path_def)

lemma ensemble_fold:
  "fold (ll_member P delta sqrt_delta i) [0..<n] w =
     w\<lparr>simulated_price :=
         (\<lambda>j. if j < n then fst (member_path P delta sqrt_delta w i j (nat (M_sim w)))
              else simulated_price w j),
       simulated_volatility :=
         (\<lambda>j. if j < n then snd (member_path P delta sqrt_delta w i j (nat (M_sim w)))
              else simulated_volatility w j)\<rparr>"
proof (induction n)
  case 0
  show ?case by (rule WrapperSimulatedJoint.equality) simp_all
next
  case (Suc n)
  show ?case
    unfolding fold_upt_Suc [of "ll_member P delta sqrt_delta i"] Suc
    by (subst ll_member_eq, rule WrapperSimulatedJoint.equality)
       (simp_all add: member_path_frame fun_eq_iff less_Suc_eq)
qed

lemma ll_obs_step_wrapper:
  "wrapper (ll_obs_step st_dev P delta sqrt_delta sqrt_pi hf i s)
   = fold (ll_member P delta sqrt_delta i) [0..<nat (N_sim (wrapper s))] (wrapper s)"
  by (simp add: ll_obs_step_def Let_def)

lemma ll_obs_step_ll:
  "ll (ll_obs_step st_dev P delta sqrt_delta sqrt_pi hf i s) =
     (let w = wrapper (ll_obs_step st_dev P delta sqrt_delta sqrt_pi hf i s);
          n = nat (N_sim (wrapper s))
      in ll s + dlog (fold (kernel_add sqrt_pi
                              (hf * st_dev (map (simulated_price w) [0..<n]))
                              (hf * st_dev (map (simulated_volatility w) [0..<n])) w i)
                         [0..<n] (kernel_sum s)
                      / of_int_d (N_sim (wrapper s))))"
  by (simp add: ll_obs_step_def Let_def ensemble_fold)

lemma ll_obs_step_kernel_sum:
  "kernel_sum (ll_obs_step st_dev P delta sqrt_delta sqrt_pi hf i s) = Fin 0"
  by (simp add: ll_obs_step_def Let_def)

section \<open>States that agree on what the evaluator reads\<close>

lemma member_path_cong:
  assumes eq: "eval_equiv s s'"
    and sz: "0 \<le> N_sim (wrapper s)" "0 \<le> M_sim (wrapper s)"
    and i: "1 \<le> i" "i < nat (N_obs (wrapper s))"
    and j: "j < nat (N_sim (wrapper s))"
  shows "member_path P delta sqrt_delta (wrapper s) i j (nat (M_sim (wrapper s)))
       = member_path P delta sqrt_delta (wrapper s') i j (nat (M_sim (wrapper s')))"
proof -
  let ?w = "wrapper s" and ?w' = "wrapper s'"
  let ?m = "nat (M_sim ?w)"
  from eq have si: "same_inputs ?w ?w'" by (simp add: eval_equiv_def)
  then have m: "M_sim ?w' = M_sim ?w" by (simp add: same_inputs_def)
  have nm: "nat (N_sim ?w * M_sim ?w) = nat (N_sim ?w) * ?m"
    using sz by (simp add: nat_mult_distrib)
  have om: "nat ((N_obs ?w - 1) * M_sim ?w) = (nat (N_obs ?w) - 1) * ?m"
    using sz i by (simp add: nat_mult_distrib nat_diff_distrib)
  have start: "(price ?w (i - 1), volatility ?w (i - 1))
             = (price ?w' (i - 1), volatility ?w' (i - 1))"
    using si i by (simp add: same_inputs_def)
  have step: "ll_euler P delta sqrt_delta (wiener_price ?w (j * ?m + k))
                 (wiener_volatility ?w (j * ?m + k))
                 (interpolated_sentiment ?w ((i - 1) * ?m + k))
            = ll_euler P delta sqrt_delta (wiener_price ?w' (j * ?m + k))
                 (wiener_volatility ?w' (j * ?m + k))
                 (interpolated_sentiment ?w' ((i - 1) * ?m + k))"
    if "k \<in> set [0..<?m]" for k
  proof -
    from that have k: "k < ?m" by simp
    have "j * ?m + k < nat (N_sim ?w * M_sim ?w)"
      unfolding nm using j k by (rule index_bound)
    with eq have W: "wiener_price ?w (j * ?m + k) = wiener_price ?w' (j * ?m + k)"
      "wiener_volatility ?w (j * ?m + k) = wiener_volatility ?w' (j * ?m + k)"
      by (simp_all add: eval_equiv_def)
    have "i - 1 < nat (N_obs ?w) - 1" using i by simp
    then have "(i - 1) * ?m + k < nat ((N_obs ?w - 1) * M_sim ?w)"
      unfolding om using k by (rule index_bound)
    with si have "interpolated_sentiment ?w ((i - 1) * ?m + k)
                = interpolated_sentiment ?w' ((i - 1) * ?m + k)"
      by (simp add: same_inputs_def)
    with W show ?thesis by simp
  qed
  show ?thesis
    unfolding member_path_def m
  proof (rule fold_cong)
    show "(price ?w (i - 1), volatility ?w (i - 1))
        = (price ?w' (i - 1), volatility ?w' (i - 1))"
      by (rule start)
    show "[0..<?m] = [0..<?m]" ..
  qed (rule step)
qed

lemma ll_obs_step_equiv:
  assumes eq: "eval_equiv s s'"
    and sz: "0 \<le> N_sim (wrapper s)" "0 \<le> M_sim (wrapper s)"
    and i: "1 \<le> i" "i < nat (N_obs (wrapper s))"
  shows "eval_equiv (ll_obs_step st_dev P delta sqrt_delta sqrt_pi hf i s)
                    (ll_obs_step st_dev P delta sqrt_delta sqrt_pi hf i s')"
proof -
  let ?w = "wrapper s" and ?w' = "wrapper s'"
  let ?n = "nat (N_sim ?w)"
  let ?e = "fold (ll_member P delta sqrt_delta i) [0..<?n] ?w"
  let ?e' = "fold (ll_member P delta sqrt_delta i) [0..<?n] ?w'"
  from eq have si: "same_inputs ?w ?w'" by (simp add: eval_equiv_def)
  then have n: "N_sim ?w' = N_sim ?w" by (simp add: same_inputs_def)
  have mp: "member_path P delta sqrt_delta ?w i j (nat (M_sim ?w))
          = member_path P delta sqrt_delta ?w' i j (nat (M_sim ?w'))" if "j < ?n" for j
    using eq sz i that by (rule member_path_cong)
  have sp: "simulated_price ?e j = simulated_price ?e' j"
    and sv: "simulated_volatility ?e j = simulated_volatility ?e' j" if "j < ?n" for j
    using that mp [OF that] by (simp_all add: ensemble_fold)
  have obs: "price ?e i = price ?e' i" "volatility ?e i = volatility ?e' i"
    using si i by (simp_all add: ensemble_fold same_inputs_def)
  have maps: "map (simulated_price ?e) [0..<?n] = map (simulated_price ?e') [0..<?n]"
    "map (simulated_volatility ?e) [0..<?n] = map (simulated_volatility ?e') [0..<?n]"
    using sp sv by simp_all
  have kern: "fold (kernel_add sqrt_pi hp hv ?e i) [0..<?n] (kernel_sum s)
            = fold (kernel_add sqrt_pi hp hv ?e' i) [0..<?n] (kernel_sum s')" for hp hv
  proof (rule fold_cong)
    show "kernel_sum s = kernel_sum s'" using eq by (simp add: eval_equiv_def)
    show "[0..<?n] = [0..<?n]" ..
    fix j assume "j \<in> set [0..<?n]"
    then have "j < ?n" by simp
    then show "kernel_add sqrt_pi hp hv ?e i j = kernel_add sqrt_pi hp hv ?e' i j"
      using sp sv obs by (simp add: kernel_add_def fun_eq_iff)
  qed
  have frame: "same_inputs ?e ?e'"
    "\<forall>i < nat (N_sim ?e * M_sim ?e).
        wiener_price ?e i = wiener_price ?e' i
        \<and> wiener_volatility ?e i = wiener_volatility ?e' i"
    "N_sim ?e = N_sim ?w" "N_sim ?e' = N_sim ?w"
    using eq n by (simp_all add: ensemble_fold eval_equiv_def same_inputs_def)
  have lleq: "ll s = ll s'" using eq by (simp add: eval_equiv_def)
  show ?thesis
    unfolding ll_obs_step_def Let_def n eval_equiv_def
    apply (simp only: eval_state.simps frame maps kern lleq)
    using frame apply simp
    done
qed

lemma ll_obs_loop_equiv:
  assumes sz: "0 \<le> N_sim (wrapper s)" "0 \<le> M_sim (wrapper s)"
    and js: "\<forall>i \<in> set js. 1 \<le> i \<and> i < nat (N_obs (wrapper s))"
    and eq: "eval_equiv s s'"
  shows "fst (ll_obs_loop chk md (ll_obs_step st_dev P delta sqrt_delta sqrt_pi hf) js s)
       = fst (ll_obs_loop chk md (ll_obs_step st_dev P delta sqrt_delta sqrt_pi hf) js s')"
  using assms
proof (induction js arbitrary: s s')
  case Nil
  then show ?case by (simp add: eval_equiv_def)
next
  case (Cons i js)
  let ?f = "ll_obs_step st_dev P delta sqrt_delta sqrt_pi hf"
  from Cons.prems have i: "1 \<le> i" "i < nat (N_obs (wrapper s))" by simp_all
  have eq': "eval_equiv (?f i s) (?f i s')"
    using Cons.prems(4) Cons.prems(1,2) i by (rule ll_obs_step_equiv)
  have keep: "N_sim (wrapper (?f i s)) = N_sim (wrapper s)"
    "M_sim (wrapper (?f i s)) = M_sim (wrapper s)"
    "N_obs (wrapper (?f i s)) = N_obs (wrapper s)"
    by (simp_all add: ll_obs_step_def Let_def ensemble_fold)
  have IH: "fst (ll_obs_loop chk md ?f js (?f i s)) = fst (ll_obs_loop chk md ?f js (?f i s'))"
    using Cons.prems by (intro Cons.IH eq') (simp_all add: keep)
  from eq' have "ll (?f i s) = ll (?f i s')" by (simp add: eval_equiv_def)
  with IH show ?case by (simp add: Let_def)
qed

lemma ll_start_equiv:
  assumes "same_inputs w w'"
  shows "eval_equiv (ll_start x w) (ll_start x w')"
  using assms
  by (simp add: eval_equiv_def ll_start_def fill_wiener_def fill_wiener_fold same_inputs_def)

section \<open>The main loop with and without the fast exit\<close>

lemma ll_obs_loop_plain:
  "ll_obs_loop False md step js s = (- ll (fold step js s), wrapper (fold step js s))"
  by (induction js arbitrary: s) (simp_all add: Let_def)

lemma ll_obs_loop_exit:
  "k < length js \<Longrightarrow>
   (\<forall>n<k. \<not> infinity_check (ll (fold step (take (Suc n) js) s))) \<Longrightarrow>
   infinity_check (ll (fold step (take (Suc k) js) s)) \<Longrightarrow>
   ll_obs_loop True md step js s = (md, wrapper (fold step (take (Suc k) js) s))"
proof (induction js arbitrary: s k)
  case Nil
  then show ?case by simp
next
  case (Cons i js)
  show ?case
  proof (cases k)
    case 0
    with Cons.prems show ?thesis by (simp add: Let_def)
  next
    case (Suc k')
    with Cons.prems have first: "\<not> infinity_check (ll (step i s))"
      by (auto dest: spec [of _ 0])
    have len: "k' < length js" using Cons.prems Suc by simp
    have quiet: "\<forall>n<k'. \<not> infinity_check (ll (fold step (take (Suc n) js) (step i s)))"
    proof (intro allI impI)
      fix n assume "n < k'"
      then have "Suc n < k" using Suc by simp
      with Cons.prems
      have "\<not> infinity_check (ll (fold step (take (Suc (Suc n)) (i # js)) s))"
        by blast
      then show "\<not> infinity_check (ll (fold step (take (Suc n) js) (step i s)))" by simp
    qed
    have fire: "infinity_check (ll (fold step (take (Suc k') js) (step i s)))"
      using Cons.prems Suc by simp
    show ?thesis using first Cons.IH [OF len quiet fire] Suc by (simp add: Let_def)
  qed
qed

lemma ll_obs_loop_sentinel:
  "k < length js \<Longrightarrow> infinity_check (ll (fold step (take (Suc k) js) s)) \<Longrightarrow>
   \<exists>k'\<le>k. ll_obs_loop True md step js s = (md, wrapper (fold step (take (Suc k') js) s))"
proof (induction k rule: less_induct)
  case (less k)
  show ?case
  proof (cases "\<forall>n<k. \<not> infinity_check (ll (fold step (take (Suc n) js) s))")
    case True
    from ll_obs_loop_exit [OF less.prems(1) True less.prems(2)] show ?thesis by blast
  next
    case False
    then obtain n where n: "n < k" "infinity_check (ll (fold step (take (Suc n) js) s))"
      by blast
    then have "n < length js" using less.prems by simp
    from less.IH [OF n(1) this n(2)] obtain k' where "k' \<le> n"
      "ll_obs_loop True md step js s = (md, wrapper (fold step (take (Suc k') js) s))"
      by blast
    with n(1) show ?thesis by (intro exI [of _ k']) simp
  qed
qed

lemma simulated_ll_joint_loop:
  "7 \<le> length x \<Longrightarrow> sizes_defined w \<Longrightarrow>
   simulated_ll_joint chk md st_dev x w =
     Some (ll_obs_loop chk md (ll_step_of st_dev x w) [1..<nat (N_obs w)] (ll_start x w))"
  by (simp add: simulated_ll_joint_def ll_step_of_def ll_start_def Let_def)

lemma ll_after_0: "ll_after st_dev x w 0 = ll_start x w"
  by (simp add: ll_after_def)

lemma ll_after_Suc:
  "ll_after st_dev x w (Suc k) = ll_step_of st_dev x w (Suc k) (ll_after st_dev x w k)"
  by (simp add: ll_after_def)

lemma ll_after_take:
  "Suc k < n \<Longrightarrow>
   fold (ll_step_of st_dev x w) (take (Suc k) [Suc 0..<n]) (ll_start x w)
   = ll_after st_dev x w (Suc k)"
  by (simp add: ll_after_def take_upt)

lemma ll_after_all:
  "fold (ll_step_of st_dev x w) [Suc 0..<n] (ll_start x w) = ll_after st_dev x w (n - Suc 0)"
  by (cases n) (simp_all add: ll_after_def)

lemma ll_after_shape:
  "\<exists>a b. wrapper (ll_after st_dev x w k)
     = (fill_wiener (rho_pv (unwrap_parameters x)) w)
         \<lparr>simulated_price := a, simulated_volatility := b\<rparr>"
proof (induction k)
  case 0
  have "wrapper (ll_after st_dev x w 0)
     = (fill_wiener (rho_pv (unwrap_parameters x)) w)
         \<lparr>simulated_price := simulated_price (fill_wiener (rho_pv (unwrap_parameters x)) w),
           simulated_volatility :=
             simulated_volatility (fill_wiener (rho_pv (unwrap_parameters x)) w)\<rparr>"
    by (simp add: ll_after_0 ll_start_def)
  then show ?case by blast
next
  case (Suc k)
  then obtain a b where "wrapper (ll_after st_dev x w k)
     = (fill_wiener (rho_pv (unwrap_parameters x)) w)
         \<lparr>simulated_price := a, simulated_volatility := b\<rparr>"
    by blast
  then show ?case
    by (simp add: ll_after_Suc ll_step_of_def ll_obs_step_wrapper ensemble_fold)
       (rule exI, rule exI, rule refl)
qed

lemma ll_after_sizes:
  "N_obs (wrapper (ll_after st_dev x w k)) = N_obs w"
  "N_sim (wrapper (ll_after st_dev x w k)) = N_sim w"
  "M_sim (wrapper (ll_after st_dev x w k)) = M_sim w"
  "price (wrapper (ll_after st_dev x w k)) = price w"
  "volatility (wrapper (ll_after st_dev x w k)) = volatility w"
  using ll_after_shape [of st_dev x w k]
  by (auto simp: fill_wiener_def fill_wiener_fold)

lemma ll_after_kernel_sum: "kernel_sum (ll_after st_dev x w k) = Fin 0"
  by (cases k) (simp_all add: ll_after_0 ll_start_def ll_after_Suc ll_step_of_def
      ll_obs_step_kernel_sum)

lemma ll_after_ensemble:
  assumes "j < nat (N_sim w)"
  shows "simulated_price (wrapper (ll_after st_dev x w (Suc k))) j
       = fst (member_path (unwrap_parameters x) (dt w / of_int_d (M_sim w))
                (dsqrt (dt w / of_int_d (M_sim w)))
                (fill_wiener (rho_pv (unwrap_parameters x)) w) (Suc k) j (nat (M_sim w)))"
    and "simulated_volatility (wrapper (ll_after st_dev x w (Suc k))) j
       = snd (member_path (unwrap_parameters x) (dt w / of_int_d (M_sim w))
                (dsqrt (dt w / of_int_d (M_sim w)))
                (fill_wiener (rho_pv (unwrap_parameters x)) w) (Suc k) j (nat (M_sim w)))"
proof -
  obtain a b where shape: "wrapper (ll_after st_dev x w k)
     = (fill_wiener (rho_pv (unwrap_parameters x)) w)
         \<lparr>simulated_price := a, simulated_volatility := b\<rparr>"
    using ll_after_shape by blast
  have m: "M_sim (fill_wiener (rho_pv (unwrap_parameters x)) w) = M_sim w"
    and n: "N_sim (fill_wiener (rho_pv (unwrap_parameters x)) w) = N_sim w"
    by (simp_all add: fill_wiener_def fill_wiener_fold)
  show "simulated_price (wrapper (ll_after st_dev x w (Suc k))) j
       = fst (member_path (unwrap_parameters x) (dt w / of_int_d (M_sim w))
                (dsqrt (dt w / of_int_d (M_sim w)))
                (fill_wiener (rho_pv (unwrap_parameters x)) w) (Suc k) j (nat (M_sim w)))"
    using assms
    by (simp add: ll_after_Suc ll_step_of_def ll_obs_step_wrapper ensemble_fold shape
        member_path_frame m n)
  show "simulated_volatility (wrapper (ll_after st_dev x w (Suc k))) j
       = snd (member_path (unwrap_parameters x) (dt w / of_int_d (M_sim w))
                (dsqrt (dt w / of_int_d (M_sim w)))
                (fill_wiener (rho_pv (unwrap_parameters x)) w) (Suc k) j (nat (M_sim w)))"
    using assms
    by (simp add: ll_after_Suc ll_step_of_def ll_obs_step_wrapper ensemble_fold shape
        member_path_frame m n)
qed

lemma ll_after_Suc_ll:
  "ll (ll_after st_dev x w (Suc k)) =
     (let w' = wrapper (ll_after st_dev x w (Suc k)); n = nat (N_sim w)
      in ll (ll_after st_dev x w k)
         + dlog (fold (kernel_add (dsqrt (Fin 2 * Fin pi))
                         (h_frac (N_sim w) * st_dev (map (simulated_price w') [0..<n]))
                         (h_frac (N_sim w) * st_dev (map (simulated_volatility w') [0..<n]))
                         w' (Suc k))
                   [0..<n] (Fin 0)
                 / of_int_d (N_sim w)))"
  unfolding ll_after_Suc ll_step_of_def
  by (subst ll_obs_step_ll) (simp add: Let_def ll_after_sizes ll_after_kernel_sum)

section \<open>The examples evaluated\<close>

lemma st_dev_population_pair:
  "st_dev_population [Fin a, Fin b]
   = Fin (sqrt (((a - (a + b) / 2)\<^sup>2 + (b - (a + b) / 2)\<^sup>2) / 2))"
  by (simp add: st_dev_population_def Let_def double_ops power2_eq_square)

lemma h_frac_2: "h_frac 2 = Fin h_frac_2" "0 < h_frac_2"
  by (simp_all add: h_frac_def h_frac_2_def double_ops)

lemma flat_spread_pos: "0 < flat_spread"
  using h_frac_2(2) by (simp add: flat_spread_def)

lemma unit_spread_pos: "0 < unit_spread"
  using flat_spread_pos by (simp add: unit_spread_def)

lemma exp_half_twice:
  "exp (- (1 / (2 * (h * h)))) * exp (- (1 / (2 * (h * h)))) = exp (- (1 / (h * h)))"
  for h :: real
  by (simp add: exp_add [symmetric] field_simps)

lemma example_fields:
  "N_sim (example_wrapper c n f) = 2" "M_sim (example_wrapper c n f) = 1"
  "N_obs (example_wrapper c n f) = n" "dt (example_wrapper c n f) = Fin 1"
  "price (example_wrapper c n f) = spike_series"
  "volatility (example_wrapper c n f) = constant_series 1"
  by (simp_all add: example_wrapper_def)

lemma example_sizes_defined: "1 \<le> n \<Longrightarrow> n \<le> 3 \<Longrightarrow> sizes_defined (example_wrapper c n f)"
  by (simp add: sizes_defined_def example_fields INT_MAX_def)

lemma example_fill:
  "fill_wiener (Fin 0) (example_wrapper c n f) =
     (example_wrapper c n f)
       \<lparr>wiener_volatility := (\<lambda>i. if i < 2 then alternating_series c i else Fin f),
        wiener_price := (\<lambda>i. if i < 2 then alternating_series 1 i else Fin f)\<rparr>"
  unfolding fill_wiener_def fill_wiener_fold
  by (rule WrapperSimulatedJoint.equality)
     (simp_all add: example_wrapper_def fun_eq_iff constant_series_def alternating_series_def
        double_ops)

lemma example_member_path:
  assumes "i = Suc 0 \<or> i = 2"
  shows "member_path (unwrap_parameters example_x) (Fin 1 / of_int_d 1) (dsqrt (Fin 1 / of_int_d 1))
           (fill_wiener (Fin 0) (example_wrapper c n f)) i 0 (Suc 0) = (Fin 2, Fin (1 + c))"
    and "member_path (unwrap_parameters example_x) (Fin 1 / of_int_d 1) (dsqrt (Fin 1 / of_int_d 1))
           (fill_wiener (Fin 0) (example_wrapper c n f)) i (Suc 0) (Suc 0) = (Fin 0, Fin (1 - c))"
  using assms
  unfolding example_fill member_path_def
  by (auto simp: unwrap_parameters_def example_x_def Let_def
      ll_euler_def double_ops example_wrapper_def constant_series_def alternating_series_def
      spike_series_def)

lemma example_ensemble:
  assumes "k = 0 \<or> k = Suc 0"
  shows "simulated_price (wrapper (ll_after sd example_x (example_wrapper c n f) (Suc k))) 0 = Fin 2"
    and "simulated_price (wrapper (ll_after sd example_x (example_wrapper c n f) (Suc k))) (Suc 0)
         = Fin 0"
    and "simulated_volatility (wrapper (ll_after sd example_x (example_wrapper c n f) (Suc k))) 0
         = Fin (1 + c)"
    and "simulated_volatility (wrapper (ll_after sd example_x (example_wrapper c n f) (Suc k)))
           (Suc 0) = Fin (1 - c)"
proof -
  have rho: "rho_pv (unwrap_parameters example_x) = Fin 0"
    by (simp add: unwrap_parameters_def example_x_def)
  have i: "Suc k = Suc 0 \<or> Suc k = 2" using assms by auto
  have j: "0 < nat (N_sim (example_wrapper c n f))" "Suc 0 < nat (N_sim (example_wrapper c n f))"
    by (simp_all add: example_fields)
  show "simulated_price (wrapper (ll_after sd example_x (example_wrapper c n f) (Suc k))) 0 = Fin 2"
    by (simp add: ll_after_ensemble(1) [OF j(1)] rho example_fields example_member_path(1) [OF i])
  show "simulated_price (wrapper (ll_after sd example_x (example_wrapper c n f) (Suc k))) (Suc 0)
         = Fin 0"
    by (simp add: ll_after_ensemble(1) [OF j(2)] rho example_fields example_member_path(2) [OF i])
  show "simulated_volatility (wrapper (ll_after sd example_x (example_wrapper c n f) (Suc k))) 0
         = Fin (1 + c)"
    by (simp add: ll_after_ensemble(2) [OF j(1)] rho example_fields example_member_path(1) [OF i])
  show "simulated_volatility (wrapper (ll_after sd example_x (example_wrapper c n f) (Suc k)))
           (Suc 0) = Fin (1 - c)"
    by (simp add: ll_after_ensemble(2) [OF j(2)] rho example_fields example_member_path(2) [OF i])
qed

lemma example_ll_1:
  assumes "0 < c"
  shows "ll (ll_after st_dev_population example_x (example_wrapper c n f) (Suc 0))
       = Fin (ln (flat_spread / c))"
proof -
  have h: "h_frac_2 \<noteq> 0" using h_frac_2(2) by simp
  have c: "c \<noteq> 0" using assms by simp
  have "exp (- (1 / (2 * (h_frac_2 * h_frac_2)))) * exp (- (1 / (2 * h_frac_2 * h_frac_2)))
          / (h_frac_2 * (h_frac_2 * (c * pi)) * 2)
        = flat_spread / c"
    using exp_half_twice [of h_frac_2] h c by (simp add: flat_spread_def mult.assoc mult.left_commute)
  then show ?thesis
    unfolding ll_after_Suc_ll Let_def
    using assms flat_spread_pos
    by (simp add: ll_after_0 ll_start_def upt_small kernel_add_def Let_def example_ensemble
      example_fields ll_after_sizes st_dev_population_pair h_frac_2(1) h double_ops
      spike_series_def constant_series_def)
qed

lemma example_ll_2:
  assumes "0 < c"
  shows "ll (ll_after st_dev_population example_x (example_wrapper c n f) 2) = MInf"
proof -
  have two: "(2::nat) = Suc (Suc 0)" by simp
  have h: "h_frac_2 \<noteq> 0" using h_frac_2(2) by simp
  show ?thesis
    unfolding two ll_after_Suc_ll [of _ _ _ "Suc 0"] Let_def example_ll_1 [OF assms]
    using assms
    by (simp add: upt_small kernel_add_def Let_def example_ensemble
      example_fields ll_after_sizes st_dev_population_pair h_frac_2(1) h double_ops
      spike_series_def constant_series_def signed_inf_def)
qed

section \<open>Further facts about the two functions\<close>

lemma euler_price_agrees:
  "fst (ll_euler P delta sqrt_delta W_p W_v sent pv)
   = fst (sim_euler P delta sqrt_delta W_p W_v sent pv)"
  by (simp add: ll_euler_def sim_euler_def Let_def)

lemma euler_volatility_forms:
  "snd (sim_euler P delta sqrt_delta W_p W_v sent (p, v))
   = v + (gamma_v P * (mu_v P + beta_v P * \<bar>sent\<bar> - v) * delta
          + W_v * (sigma_v P * dsqrt \<bar>v\<bar>) * sqrt_delta)"
  "snd (ll_euler P delta sqrt_delta W_p W_v sent (p, v))
   = v + (gamma_v P * (mu_v P + beta_v P * \<bar>sent\<bar> - v) * delta
          + W_v * (p * dsqrt \<bar>v\<bar>) * sigma_v P * sqrt_delta)"
  by (simp_all add: ll_euler_def sim_euler_def Let_def)

lemma h_frac_value:
  "0 < n \<Longrightarrow> h_frac n = Fin (6 powr (1 / 5) * of_int n powr (- (3 / 10)))"
  by (simp add: h_frac_def double_ops)

lemma fill_wiener_at:
  assumes "i < nat (N_sim w * M_sim w)"
  shows "wiener_volatility (fill_wiener rho w) i = random_buffer_volatility w i"
    and "wiener_price (fill_wiener rho w) i
         = dsqrt (Fin 1 - rho * rho) * random_buffer_price w i
           + rho * random_buffer_volatility w i"
  using assms by (simp_all add: fill_wiener_def fill_wiener_fold)



lemma infinity_check_cases:
  "\<not> isfinite l \<Longrightarrow> infinity_check l"
  "\<bar>r\<bar> < DBL_MIN \<Longrightarrow> infinity_check (Fin r)"
  by (cases l; simp add: infinity_check_def)+

lemma fast_exit_at:
  assumes x: "7 \<le> length x" and w: "sizes_defined w"
    and k: "1 \<le> k" "k < nat (N_obs w)"
    and fire: "infinity_check (ll (ll_after st_dev x w k))"
  shows "\<exists>k'. 1 \<le> k' \<and> k' \<le> k
            \<and> simulated_ll_joint True md st_dev x w
              = Some (md, wrapper (ll_after st_dev x w k'))"
    and "(\<forall>j. 1 \<le> j \<and> j < k \<longrightarrow> \<not> infinity_check (ll (ll_after st_dev x w j))) \<Longrightarrow>
         simulated_ll_joint True md st_dev x w = Some (md, wrapper (ll_after st_dev x w k))"
proof -
  let ?js = "[Suc 0..<nat (N_obs w)]"
  let ?f = "ll_step_of st_dev x w"
  obtain n where n: "k = Suc n" using k(1) by (cases k) auto
  have len: "n < length ?js" using k n by simp
  have after: "fold ?f (take (Suc m) ?js) (ll_start x w) = ll_after st_dev x w (Suc m)"
    if "m \<le> n" for m
    using that k n by (intro ll_after_take) simp
  have fire': "infinity_check (ll (fold ?f (take (Suc n) ?js) (ll_start x w)))"
    using fire n by (simp add: after)
  from ll_obs_loop_sentinel [OF len fire', of md]
  obtain m where m: "m \<le> n"
    "ll_obs_loop True md ?f ?js (ll_start x w)
     = (md, wrapper (fold ?f (take (Suc m) ?js) (ll_start x w)))"
    by blast
  then have "simulated_ll_joint True md st_dev x w
             = Some (md, wrapper (ll_after st_dev x w (Suc m)))"
    using x w by (simp add: simulated_ll_joint_loop after)
  with m(1) n
  show "\<exists>k'. 1 \<le> k' \<and> k' \<le> k
            \<and> simulated_ll_joint True md st_dev x w
              = Some (md, wrapper (ll_after st_dev x w k'))"
    by (intro exI [of _ "Suc m"]) simp
  assume quiet: "\<forall>j. 1 \<le> j \<and> j < k \<longrightarrow> \<not> infinity_check (ll (ll_after st_dev x w j))"
  have quiet': "\<forall>m<n. \<not> infinity_check (ll (fold ?f (take (Suc m) ?js) (ll_start x w)))"
    using quiet n by (simp add: after)
  from ll_obs_loop_exit [OF len quiet' fire', of md]
  show "simulated_ll_joint True md st_dev x w = Some (md, wrapper (ll_after st_dev x w k))"
    using x w n by (simp add: simulated_ll_joint_loop after)
qed

lemma no_fast_exit:
  assumes "7 \<le> length x" "sizes_defined w"
  shows "simulated_ll_joint False md st_dev x w
         = Some (- ll (ll_after st_dev x w (nat (N_obs w) - 1)),
                 wrapper (ll_after st_dev x w (nat (N_obs w) - 1)))"
  using assms by (simp add: simulated_ll_joint_loop ll_obs_loop_plain ll_after_all)

lemma ll_obs_loop_value:
  "fst (ll_obs_loop chk md step js s) = md
   \<or> fst (ll_obs_loop chk md step js s) = - ll (fold step js s)"
  by (induction js arbitrary: s) (simp_all add: Let_def)

lemma member_path_positional:
  assumes sizes: "0 \<le> N_sim w" "0 \<le> M_sim w" and j: "j < nat (N_sim w)"
  shows "member_path (unwrap_parameters x) (dt w / of_int_d (M_sim w))
           (dsqrt (dt w / of_int_d (M_sim w)))
           (fill_wiener (rho_pv (unwrap_parameters x)) w) i j (nat (M_sim w))
         = positional_path x w i j"
proof -
  let ?f = "fill_wiener (rho_pv (unwrap_parameters x)) w"
  let ?m = "nat (M_sim w)"
  have frame: "M_sim ?f = M_sim w" "price ?f = price w" "volatility ?f = volatility w"
    "interpolated_sentiment ?f = interpolated_sentiment w"
    by (simp_all add: fill_wiener_def fill_wiener_fold)
  have nm: "nat (N_sim w * M_sim w) = nat (N_sim w) * ?m"
    using sizes by (simp add: nat_mult_distrib)
  have rho: "rho_pv (unwrap_parameters x) = x ! 6" by (simp add: unwrap_parameters_def)
  show ?thesis
    unfolding member_path_def positional_path_def frame
  proof (rule fold_cong)
    show "(price w (i - 1), volatility w (i - 1)) = (price w (i - 1), volatility w (i - 1))" ..
    show "[0..<?m] = [0..<?m]" ..
    fix k assume "k \<in> set [0..<?m]"
    then have "k < ?m" by simp
    with j have "j * ?m + k < nat (N_sim w * M_sim w)"
      unfolding nm by (rule index_bound)
    then have W: "wiener_volatility ?f (j * ?m + k) = random_buffer_volatility w (j * ?m + k)"
      "wiener_price ?f (j * ?m + k)
       = dsqrt (Fin 1 - x ! 6 * x ! 6) * random_buffer_price w (j * ?m + k)
         + x ! 6 * random_buffer_volatility w (j * ?m + k)"
      by (simp_all add: fill_wiener_at rho)
    show "ll_euler (unwrap_parameters x) (dt w / of_int_d (M_sim w))
            (dsqrt (dt w / of_int_d (M_sim w))) (wiener_price ?f (j * ?m + k))
            (wiener_volatility ?f (j * ?m + k)) (interpolated_sentiment w ((i - 1) * ?m + k))
        = (\<lambda>pv. let p = fst pv; v = snd pv;
                 delta = dt w / of_int_d (M_sim w);
                 W_v = random_buffer_volatility w (j * nat (M_sim w) + k);
                 W_p = dsqrt (Fin 1 - x ! 6 * x ! 6)
                         * random_buffer_price w (j * nat (M_sim w) + k)
                       + x ! 6 * W_v;
                 sent = interpolated_sentiment w ((i - 1) * nat (M_sim w) + k)
             in (p + (x ! 0 * (x ! 1 - p) * delta + W_p * (p * dsqrt \<bar>v\<bar>) * dsqrt delta),
                 v + (x ! 2 * (x ! 3 + x ! 4 * \<bar>sent\<bar> - v) * delta
                      + W_v * (p * dsqrt \<bar>v\<bar>) * x ! 5 * dsqrt delta)))"
      unfolding W by (simp add: fun_eq_iff ll_euler_def unwrap_parameters_def Let_def)
  qed
qed

lemma ll_after_positional_ensemble:
  assumes "0 \<le> N_sim w" "0 \<le> M_sim w" "j < nat (N_sim w)"
  shows "simulated_price (wrapper (ll_after st_dev x w (Suc k))) j
         = fst (positional_path x w (Suc k) j)"
    and "simulated_volatility (wrapper (ll_after st_dev x w (Suc k))) j
         = snd (positional_path x w (Suc k) j)"
  by (simp_all add: ll_after_ensemble [OF assms(3)] member_path_positional [OF assms])

lemma ll_after_positional_ll:
  assumes "0 \<le> N_sim w" "0 \<le> M_sim w"
  shows "ll (ll_after st_dev x w k) = positional_ll st_dev x w k"
proof (induction k)
  case 0
  show ?case by (simp add: ll_after_0 ll_start_def)
next
  case (Suc k)
  let ?n = "nat (N_sim w)"
  let ?w = "wrapper (ll_after st_dev x w (Suc k))"
  let ?e = "w\<lparr>simulated_price := (\<lambda>j. fst (positional_path x w (Suc k) j)),
               simulated_volatility := (\<lambda>j. snd (positional_path x w (Suc k) j))\<rparr>"
  have ens: "simulated_price ?w j = simulated_price ?e j"
    "simulated_volatility ?w j = simulated_volatility ?e j" if "j < ?n" for j
    using ll_after_positional_ensemble [OF assms that, of st_dev x k] by simp_all
  have maps: "map (simulated_price ?w) [0..<?n] = map (simulated_price ?e) [0..<?n]"
    "map (simulated_volatility ?w) [0..<?n] = map (simulated_volatility ?e) [0..<?n]"
    using ens by simp_all
  have kern: "fold (kernel_add sp hp hv ?w (Suc k)) [0..<?n] (Fin 0)
            = fold (kernel_add sp hp hv ?e (Suc k)) [0..<?n] (Fin 0)" for sp hp hv
  proof (rule fold_cong)
    fix j assume "j \<in> set [0..<?n]"
    then have "j < ?n" by simp
    from ens [OF this]
    show "kernel_add sp hp hv ?w (Suc k) j = kernel_add sp hp hv ?e (Suc k) j"
      by (simp add: kernel_add_def fun_eq_iff ll_after_sizes)
  qed simp_all
  show ?case
    unfolding ll_after_Suc_ll positional_ll.simps Let_def maps kern Suc ..
qed

section \<open>C1: the sub-step of the evaluator against the sub-step of the simulator\<close>

text \<open>
  C1 claims that for equal state, innovations and sentiment value the sub-step of
  \<open>simulated_ll_joint\<close> updates the price as \<open>simulate_joint_process\<close> does and the
  volatility with the diffusion coefficient \<open>sigma_v * sqrt |volatility|\<close>. The price
  updates agree (\<open>euler_price_agrees\<close>), but the evaluator multiplies the volatility
  increment by \<open>sqrt_vol\<close>, which holds \<open>price * sqrt |volatility|\<close>: at price \<open>2\<close>,
  volatility \<open>1\<close>, \<open>W_v = 1\<close>, \<open>sigma_v = 1\<close>, \<open>delta = 1\<close> and no drift, the evaluator
  moves the volatility to \<open>3\<close> and the simulator to \<open>2\<close>.
\<close>

theorem evaluator_volatility_step_differs:
  "snd (ll_euler diffusion_parameters (Fin 1) (Fin 1) (Fin 0) (Fin 1) (Fin 0) (Fin 2, Fin 1))
     = Fin 3
   \<and> snd (sim_euler diffusion_parameters (Fin 1) (Fin 1) (Fin 0) (Fin 1) (Fin 0) (Fin 2, Fin 1))
     = Fin 2"
  by (simp add: ll_euler_def sim_euler_def Let_def diffusion_parameters_def double_ops)

section \<open>C2: the bandwidth fraction\<close>

text \<open>
  C2 claims that \<open>h_frac\<close> equals \<open>(4/3)\<^sup>1\<^sup>/\<^sup>5 * N_sim\<^sup>-\<^sup>0\<^sup>.\<^sup>3\<close> for every \<open>N_sim\<close>. The source
  writes the base of the first power as \<open>4.0 / dimy + 2.0\<close>, which is \<open>6\<close> and not
  \<open>4 / (dimy + 2)\<close>: for \<open>N_sim = 100\<close> the code computes \<open>6\<^sup>1\<^sup>/\<^sup>5 * 100\<^sup>-\<^sup>0\<^sup>.\<^sup>3\<close>, which is not
  the claimed value.
\<close>

theorem h_frac_base_is_six:
  "h_frac 100 = Fin (6 powr (1 / 5) * 100 powr (- (3 / 10)))
   \<and> h_frac 100 \<noteq> Fin ((4 / 3) powr (1 / 5) * 100 powr (- (3 / 10)))"
proof -
  have "(4 / 3 :: real) powr (1 / 5) < 6 powr (1 / 5)"
    by (rule powr_less_mono2) simp_all
  then have "(6 :: real) powr (1 / 5) \<noteq> (4 / 3) powr (1 / 5)" by simp
  then show ?thesis by (simp add: h_frac_def double_ops)
qed

section \<open>C3: the zero-noise scenario of the simulator\<close>

text \<open>
  C3 as stated, with \<open>|sentiment[0]|\<close> in the volatility drift, fails: with
  \<open>gamma_v = beta_v = 1\<close>, \<open>mu_v = sigma_v = 0\<close>, \<open>sentiment[0] = 0\<close> and
  \<open>sentiment[1] = 1\<close> the simulator returns \<open>volatility[1] = 1\<close>, and the claimed value
  is \<open>0\<close>.
\<close>

theorem concrete_scenario_counterexample:
  "output_volatility
     (simulate_joint_process (constant_series 0) (constant_series 0) (constant_series 0)
        sentiment_01 drift_parameters (Fin 1) 2 1 (Fin 100) (Fin (4 / 100))) 1
   \<noteq> Some (Fin (4 / 100)
            + gamma_v drift_parameters
              * (mu_v drift_parameters + beta_v drift_parameters * \<bar>sentiment_01 0\<bar>
                 - Fin (4 / 100))
              * Fin 1)"
  by (simp add: simulate_joint_process_def output_volatility_def Let_def upt_small
      sim_obs_step_def sim_substep_def sim_wiener_def sim_euler_def constant_series_def
      double_ops drift_parameters_def sentiment_01_def)

text \<open>
  C3 as amended: for \<open>N_obs = 2\<close>, \<open>M_obs = 1\<close>, \<open>dt = 1\<close>, \<open>p0 = 100\<close>, \<open>v0 = 0.04\<close>,
  \<open>gamma_p = 1\<close>, \<open>mu_p = 100\<close>, \<open>rho_pv = 0\<close>, a finite \<open>sigma_v\<close> and every draw equal to
  \<open>0\<close>, the simulator returns \<open>price[1] = 100\<close>, \<open>volatility[0] = 0.04\<close> and
  \<open>volatility[1] = volatility[0] + gamma_v * (mu_v + beta_v * |sentiment[1]| - v0) * dt\<close>:
  the drift reads the sentiment at the index \<open>i = 1\<close> of the step.
\<close>

theorem concrete_scenario:
  assumes "gamma_p P = Fin 1" "mu_p P = Fin 100" "rho_pv P = Fin 0" "isfinite (sigma_v P)"
  shows "output_price
           (simulate_joint_process (constant_series 0) prices vols sentiment P (Fin 1) 2 1
              (Fin 100) (Fin (4 / 100))) 1 = Some (Fin 100)
       \<and> output_volatility
           (simulate_joint_process (constant_series 0) prices vols sentiment P (Fin 1) 2 1
              (Fin 100) (Fin (4 / 100))) 0 = Some (Fin (4 / 100))
       \<and> output_volatility
           (simulate_joint_process (constant_series 0) prices vols sentiment P (Fin 1) 2 1
              (Fin 100) (Fin (4 / 100))) 1
         = Some (Fin (4 / 100)
                 + gamma_v P * (mu_v P + beta_v P * \<bar>sentiment 1\<bar> - Fin (4 / 100)) * Fin 1)"
proof -
  from assms(4) obtain s where s: "sigma_v P = Fin s" by (auto simp: isfinite_iff)
  show ?thesis
    using assms(1-3) s
    by (simp add: simulate_joint_process_def output_price_def output_volatility_def Let_def
        upt_small sim_obs_step_def sim_substep_def sim_wiener_def sim_euler_def
        constant_series_def double_ops)
qed

theorem concrete_scenario_witness:
  "gamma_p drift_parameters = Fin 1 \<and> mu_p drift_parameters = Fin 100
   \<and> rho_pv drift_parameters = Fin 0 \<and> isfinite (sigma_v drift_parameters)
   \<and> output_price
       (simulate_joint_process (constant_series 0) (constant_series 0) (constant_series 0)
          sentiment_01 drift_parameters (Fin 1) 2 1 (Fin 100) (Fin (4 / 100))) 1
     = Some (Fin 100)
   \<and> output_volatility
       (simulate_joint_process (constant_series 0) (constant_series 0) (constant_series 0)
          sentiment_01 drift_parameters (Fin 1) 2 1 (Fin 100) (Fin (4 / 100))) 1
     = Some (Fin 1)"
proof -
  have P: "gamma_p drift_parameters = Fin 1" "mu_p drift_parameters = Fin 100"
    "rho_pv drift_parameters = Fin 0" "isfinite (sigma_v drift_parameters)"
    by (simp_all add: drift_parameters_def)
  have "Fin (4 / 100)
        + gamma_v drift_parameters
          * (mu_v drift_parameters + beta_v drift_parameters * \<bar>sentiment_01 1\<bar> - Fin (4 / 100))
          * Fin 1 = Fin 1"
    by (simp add: drift_parameters_def sentiment_01_def double_ops)
  with concrete_scenario [OF P, of "constant_series 0" "constant_series 0" sentiment_01] P
  show ?thesis by simp
qed

section \<open>C4: the fast exit\<close>

text \<open>
  C4: with \<open>INFINITY_CHECK\<close> defined, when the running log-likelihood after observation
  step \<open>k\<close> is \<open>-\<infinity>\<close> or otherwise not finite, \<open>simulated_ll_joint\<close> returns \<open>max_double\<close>
  and simulates no step after \<open>k\<close>: the buffers on return are those after some step
  \<open>k' \<le> k\<close>, and after step \<open>k\<close> itself when the run got that far (the test did not fire
  before). Without \<open>INFINITY_CHECK\<close> every observation step is run and the negated
  accumulator is returned.
\<close>

theorem fast_exit:
  assumes "7 \<le> length x" "sizes_defined w" "1 \<le> k" "k < nat (N_obs w)"
    and "\<not> isfinite (ll (ll_after st_dev x w k))"
  shows "(\<exists>k'. 1 \<le> k' \<and> k' \<le> k
            \<and> simulated_ll_joint True md st_dev x w
              = Some (md, wrapper (ll_after st_dev x w k')))
       \<and> ((\<forall>j. 1 \<le> j \<and> j < k \<longrightarrow> \<not> infinity_check (ll (ll_after st_dev x w j))) \<longrightarrow>
            simulated_ll_joint True md st_dev x w
            = Some (md, wrapper (ll_after st_dev x w k)))
       \<and> simulated_ll_joint False md st_dev x w
         = Some (- ll (ll_after st_dev x w (nat (N_obs w) - 1)),
                 wrapper (ll_after st_dev x w (nat (N_obs w) - 1)))"
proof -
  have fire: "infinity_check (ll (ll_after st_dev x w k))"
    using assms(5) by (rule infinity_check_cases)
  from fast_exit_at [OF assms(1-4) fire] no_fast_exit [OF assms(1,2)]
  show ?thesis by blast
qed

theorem fast_exit_witness:
  "ll (ll_after st_dev_population example_x (example_wrapper unit_spread 3 0) 1) = Fin 1
   \<and> ll (ll_after st_dev_population example_x (example_wrapper unit_spread 3 0) 2) = MInf
   \<and> simulated_ll_joint True (Fin DBL_MAX) st_dev_population example_x
       (example_wrapper unit_spread 3 0)
     = Some (Fin DBL_MAX,
             wrapper (ll_after st_dev_population example_x (example_wrapper unit_spread 3 0) 2))
   \<and> simulated_ll_joint False (Fin DBL_MAX) st_dev_population example_x
       (example_wrapper unit_spread 3 0)
     = Some (PInf,
             wrapper (ll_after st_dev_population example_x (example_wrapper unit_spread 3 0) 2))"
proof -
  let ?w = "example_wrapper unit_spread 3 0"
  have "flat_spread / unit_spread = exp 1"
    using flat_spread_pos by (simp add: unit_spread_def)
  then have one: "ll (ll_after st_dev_population example_x ?w 1) = Fin 1"
    using example_ll_1 [OF unit_spread_pos, of 3 0] by simp
  have two: "ll (ll_after st_dev_population example_x ?w 2) = MInf"
    by (rule example_ll_2 [OF unit_spread_pos])
  have x: "7 \<le> length example_x" by (simp add: example_x_def)
  have w: "sizes_defined ?w" by (simp add: example_sizes_defined)
  have k: "(1::nat) \<le> 2" "2 < nat (N_obs ?w)" by (simp_all add: example_fields)
  have bad: "\<not> isfinite (ll (ll_after st_dev_population example_x ?w 2))"
    by (simp add: two)
  have normal: "\<not> infinity_check (Fin 1)"
    by (simp add: infinity_check_def deq_def DBL_MIN_def)
  have quiet: "\<forall>j. 1 \<le> j \<and> j < 2 \<longrightarrow>
                 \<not> infinity_check (ll (ll_after st_dev_population example_x ?w j))"
  proof (intro allI impI)
    fix j :: nat
    assume "1 \<le> j \<and> j < 2"
    then have "j = 1" by simp
    with one normal
    show "\<not> infinity_check (ll (ll_after st_dev_population example_x ?w j))" by simp
  qed
  from fast_exit [OF x w k bad, of "Fin DBL_MAX"] quiet one two
  show ?thesis by (simp add: example_fields double_ops)
qed

section \<open>C5: the evaluator is a function of its inputs\<close>

text \<open>
  C5: two calls of \<open>simulated_ll_joint\<close> with the same parameter vector, the same
  observed series, the same innovation buffers and the same grid sizes and \<open>dt\<close> return the
  same value, whatever the four scratch buffers hold at each call (and for the same
  \<open>st_dev\<close>, \<open>max_double\<close> and compilation mode).
\<close>

theorem evaluator_deterministic:
  assumes "same_inputs w w'"
  shows "map_option fst (simulated_ll_joint chk md st_dev x w)
       = map_option fst (simulated_ll_joint chk md st_dev x w')"
proof (cases "7 \<le> length x \<and> sizes_defined w")
  case False
  moreover have "sizes_defined w' = sizes_defined w"
    using assms by (simp add: sizes_defined_def same_inputs_def)
  ultimately show ?thesis by (auto simp: simulated_ll_joint_def)
next
  case True
  have sd: "sizes_defined w'"
    using assms True by (simp add: sizes_defined_def same_inputs_def)
  have step: "ll_step_of st_dev x w' = ll_step_of st_dev x w"
    and n: "N_obs w' = N_obs w"
    using assms by (simp_all add: ll_step_of_def same_inputs_def)
  have sz: "0 \<le> N_sim (wrapper (ll_start x w))" "0 \<le> M_sim (wrapper (ll_start x w))"
    and js: "\<forall>i \<in> set [1..<nat (N_obs w)]. 1 \<le> i \<and> i < nat (N_obs (wrapper (ll_start x w)))"
    using True by (simp_all add: ll_start_def fill_wiener_def fill_wiener_fold sizes_defined_def)
  have "fst (ll_obs_loop chk md (ll_step_of st_dev x w) [1..<nat (N_obs w)] (ll_start x w))
      = fst (ll_obs_loop chk md (ll_step_of st_dev x w) [1..<nat (N_obs w)] (ll_start x w'))"
    unfolding ll_step_of_def using sz js ll_start_equiv [OF assms] by (rule ll_obs_loop_equiv)
  then show ?thesis
    using True sd by (simp add: simulated_ll_joint_loop step n)
qed

theorem evaluator_deterministic_witness:
  "same_inputs (example_wrapper 1 2 0) (example_wrapper 1 2 7)
   \<and> example_wrapper 1 2 0 \<noteq> example_wrapper 1 2 7
   \<and> map_option fst
       (simulated_ll_joint False (Fin DBL_MAX) st_dev_population example_x (example_wrapper 1 2 0))
     = Some (Fin (- ln flat_spread))
   \<and> map_option fst
       (simulated_ll_joint False (Fin DBL_MAX) st_dev_population example_x (example_wrapper 1 2 7))
     = Some (Fin (- ln flat_spread))"
proof -
  have same: "same_inputs (example_wrapper 1 2 0) (example_wrapper 1 2 7)"
    by (simp add: same_inputs_def example_wrapper_def)
  have differ: "example_wrapper 1 2 0 \<noteq> example_wrapper 1 2 7"
    by (simp add: example_wrapper_def constant_series_def fun_eq_iff)
  have "simulated_ll_joint False (Fin DBL_MAX) st_dev_population example_x (example_wrapper 1 2 0)
      = Some (- ll (ll_after st_dev_population example_x (example_wrapper 1 2 0) (Suc 0)),
              wrapper (ll_after st_dev_population example_x (example_wrapper 1 2 0) (Suc 0)))"
    by (simp add: simulated_ll_joint_loop example_sizes_defined example_x_def
        ll_obs_loop_plain ll_after_all [of _ _ _ 2, simplified] example_fields)
  then have result: "map_option fst
       (simulated_ll_joint False (Fin DBL_MAX) st_dev_population example_x (example_wrapper 1 2 0))
     = Some (Fin (- ln flat_spread))"
    by (simp add: example_ll_1 double_ops)
  from evaluator_deterministic [OF same, of False "Fin DBL_MAX" st_dev_population example_x]
    same differ result
  show ?thesis by simp
qed

section \<open>C6: the boundary values of the correlation\<close>

text \<open>
  C6: in the simulator (the pair \<open>(W_p, W_v)\<close> made from two successive draws) and in the
  evaluator (entry \<open>i\<close> of the two filled buffers, \<open>i < N_sim * M_sim\<close>), for finite
  draws: with \<open>rho_pv = 0\<close>, \<open>W_p\<close> is the raw price draw; with \<open>rho_pv = 1\<close>, \<open>W_p = W_v\<close>;
  with \<open>rho_pv = -1\<close>, \<open>W_p = -W_v\<close>.
\<close>

theorem correlation_boundary:
  assumes "isfinite (draws n)" "isfinite (draws (n + 1))"
    and "i < nat (N_sim w * M_sim w)"
    and "isfinite (random_buffer_price w i)" "isfinite (random_buffer_volatility w i)"
  shows "sim_wiener (Fin 0) draws n = (draws (n + 1), draws n)
       \<and> fst (sim_wiener (Fin 1) draws n) = snd (sim_wiener (Fin 1) draws n)
       \<and> fst (sim_wiener (Fin (- 1)) draws n) = - snd (sim_wiener (Fin (- 1)) draws n)
       \<and> wiener_price (fill_wiener (Fin 0) w) i = random_buffer_price w i
       \<and> wiener_price (fill_wiener (Fin 1) w) i = wiener_volatility (fill_wiener (Fin 1) w) i
       \<and> wiener_price (fill_wiener (Fin (- 1)) w) i
         = - wiener_volatility (fill_wiener (Fin (- 1)) w) i"
proof -
  from assms(1,2) obtain a b where d: "draws n = Fin a" "draws (n + 1) = Fin b"
    by (auto simp: isfinite_iff)
  from assms(4,5) obtain p v
    where r: "random_buffer_price w i = Fin p" "random_buffer_volatility w i = Fin v"
    by (auto simp: isfinite_iff)
  have sim: "sim_wiener (Fin 0) draws n = (draws (n + 1), draws n)"
    "fst (sim_wiener (Fin 1) draws n) = snd (sim_wiener (Fin 1) draws n)"
    "fst (sim_wiener (Fin (- 1)) draws n) = - snd (sim_wiener (Fin (- 1)) draws n)"
    using d by (simp_all add: sim_wiener_def Let_def double_ops)
  have ev: "wiener_price (fill_wiener (Fin 0) w) i = random_buffer_price w i"
    "wiener_price (fill_wiener (Fin 1) w) i = wiener_volatility (fill_wiener (Fin 1) w) i"
    "wiener_price (fill_wiener (Fin (- 1)) w) i
     = - wiener_volatility (fill_wiener (Fin (- 1)) w) i"
    using r by (simp_all add: fill_wiener_at [OF assms(3)] double_ops)
  from sim ev show ?thesis by simp
qed

theorem correlation_boundary_witness:
  "sim_wiener (Fin 0) (alternating_series 3) 4 = (Fin (- 3), Fin 3)
   \<and> sim_wiener (Fin 1) (alternating_series 3) 4 = (Fin 3, Fin 3)
   \<and> sim_wiener (Fin (- 1)) (alternating_series 3) 4 = (Fin (- 3), Fin 3)
   \<and> wiener_price (fill_wiener (Fin 0) (example_wrapper 5 2 0)) 1 = Fin (- 1)
   \<and> wiener_price (fill_wiener (Fin 1) (example_wrapper 5 2 0)) 1 = Fin (- 5)
   \<and> wiener_price (fill_wiener (Fin (- 1)) (example_wrapper 5 2 0)) 1 = Fin 5"
proof -
  have d: "isfinite (alternating_series 3 4)" "isfinite (alternating_series 3 (4 + 1))"
    by (simp_all add: alternating_series_def)
  have i: "(1::nat) < nat (N_sim (example_wrapper 5 2 0) * M_sim (example_wrapper 5 2 0))"
    by (simp add: example_fields)
  have r: "isfinite (random_buffer_price (example_wrapper 5 2 0) 1)"
    "isfinite (random_buffer_volatility (example_wrapper 5 2 0) 1)"
    by (simp_all add: example_wrapper_def alternating_series_def)
  have v: "snd (sim_wiener rho (alternating_series 3) 4) = Fin 3"
    "wiener_volatility (fill_wiener rho (example_wrapper 5 2 0)) 1 = Fin (- 5)" for rho
    using i by (simp_all add: sim_wiener_def Let_def fill_wiener_at(1) alternating_series_def
        example_wrapper_def)
  have a: "alternating_series 3 4 = Fin 3" "alternating_series 3 (4 + 1) = Fin (- 3)"
    "random_buffer_price (example_wrapper 5 2 0) 1 = Fin (- 1)"
    by (simp_all add: alternating_series_def example_wrapper_def)
  from correlation_boundary [OF d i r]
  show ?thesis
    unfolding v a by (simp add: prod_eq_iff double_ops v)
qed

section \<open>C7: the reset of the ensemble\<close>



section \<open>C8: the order of the parameter vector\<close>

text \<open>
  C8: \<open>simulated_ll_joint\<close> reads \<open>x\<close> by position and uses \<open>x[0]\<close> as the speed and \<open>x[1]\<close>
  as the long-run mean of the price drift, \<open>x[2]\<close> as the speed and \<open>x[3]\<close> as the long-run
  mean of the volatility drift, \<open>x[4]\<close> as the factor of \<open>|sentiment|\<close>, \<open>x[5]\<close> as the scale
  of the volatility diffusion and \<open>x[6]\<close> as the correlation: after every observation step
  each member of the ensemble is on the path written with these roles, the accumulator
  is the log-likelihood of these paths, and the call returns its negation (or
  \<open>max_double\<close>, when the fast exit is compiled in).
\<close>

theorem parameter_vector_order:
  assumes "7 \<le> length x" "sizes_defined w" "j < nat (N_sim w)"
  shows "simulated_price (wrapper (ll_after st_dev x w (Suc k))) j
           = fst (positional_path x w (Suc k) j)
       \<and> simulated_volatility (wrapper (ll_after st_dev x w (Suc k))) j
           = snd (positional_path x w (Suc k) j)
       \<and> ll (ll_after st_dev x w k) = positional_ll st_dev x w k
       \<and> simulated_ll_joint False md st_dev x w
           = Some (- positional_ll st_dev x w (nat (N_obs w) - 1),
                   wrapper (ll_after st_dev x w (nat (N_obs w) - 1)))
       \<and> (map_option fst (simulated_ll_joint True md st_dev x w) = Some md
          \<or> map_option fst (simulated_ll_joint True md st_dev x w)
            = Some (- positional_ll st_dev x w (nat (N_obs w) - 1)))"
proof -
  have sizes: "0 \<le> N_sim w" "0 \<le> M_sim w"
    using assms(2) by (simp_all add: sizes_defined_def)
  note ll = ll_after_positional_ll [OF sizes, of st_dev x]
  have off: "simulated_ll_joint False md st_dev x w
           = Some (- positional_ll st_dev x w (nat (N_obs w) - 1),
                   wrapper (ll_after st_dev x w (nat (N_obs w) - 1)))"
    using no_fast_exit [OF assms(1,2), of md st_dev] by (simp add: ll)
  have on: "map_option fst (simulated_ll_joint True md st_dev x w) = Some md
          \<or> map_option fst (simulated_ll_joint True md st_dev x w)
            = Some (- positional_ll st_dev x w (nat (N_obs w) - 1))"
    using ll_obs_loop_value [of True md "ll_step_of st_dev x w" "[Suc 0..<nat (N_obs w)]"
        "ll_start x w"]
    by (simp add: simulated_ll_joint_loop [OF assms(1,2)] ll_after_all ll)
  from ll_after_positional_ensemble [OF sizes assms(3), of st_dev x k] ll [of k] off on
  show ?thesis by simp
qed

theorem parameter_vector_order_witness:
  "simulated_price (wrapper (ll_after st_dev_population order_x order_wrapper 1)) 0 = Fin 10
   \<and> simulated_volatility (wrapper (ll_after st_dev_population order_x order_wrapper 1)) 0
     = Fin 206
   \<and> simulated_ll_joint False (Fin DBL_MAX) st_dev_population order_x order_wrapper
     = Some (- positional_ll st_dev_population order_x order_wrapper 1,
             wrapper (ll_after st_dev_population order_x order_wrapper 1))"
proof -
  have x: "7 \<le> length order_x" by (simp add: order_x_def)
  have w: "sizes_defined order_wrapper"
    by (simp add: sizes_defined_def order_wrapper_def example_wrapper_def INT_MAX_def)
  have j: "0 < nat (N_sim order_wrapper)"
    by (simp add: order_wrapper_def example_wrapper_def)
  have n: "nat (N_obs order_wrapper) - Suc 0 = Suc 0"
    by (simp add: order_wrapper_def example_wrapper_def)
  have path: "positional_path order_x order_wrapper (Suc 0) 0 = (Fin 10, Fin 206)"
    by (simp add: positional_path_def order_x_def order_wrapper_def example_wrapper_def
        Let_def constant_series_def alternating_series_def spike_series_def double_ops)
  from parameter_vector_order [OF x w j, of st_dev_population 0 "Fin DBL_MAX"]
  show ?thesis
    by (simp add: n path del: positional_ll.simps)
qed

section \<open>C9: the degenerate volatility path\<close>

text \<open>
  C9: with \<open>mu_v = beta_v = gamma_v = sigma_v = 0\<close> and \<open>v0 = 0\<close> the simulator returns
  \<open>volatility[i] = 0\<close> for every \<open>i\<close> in \<open>0..N_obs-1\<close>, whatever the finite draws, the
  finite sentiment values and the other model parameters are. The grid is the one the
  function is specified for: \<open>N_obs \<ge> 1\<close>, \<open>M_obs \<ge> 0\<close> and a finite \<open>dt \<ge> 0\<close>.
\<close>

theorem degenerate_volatility_path:
  assumes P: "gamma_v P = Fin 0" "mu_v P = Fin 0" "beta_v P = Fin 0" "sigma_v P = Fin 0"
    and sizes: "1 \<le> n_obs" "0 \<le> m_obs"
    and dt: "dtime = Fin t" "0 \<le> t"
    and fin: "\<forall>n. isfinite (draws n)"
      "\<forall>i. 1 \<le> i \<and> i < nat n_obs \<longrightarrow> isfinite (sentiment i)"
  shows "\<forall>i < nat n_obs.
           output_volatility
             (simulate_joint_process draws prices vols sentiment P dtime n_obs m_obs p0 (Fin 0)) i
           = Some (Fin 0)"
proof -
  let ?delta = "dtime / of_int_d m_obs"
  let ?s0 = "\<lparr>sim_price = prices(0 := p0), sim_volatility = vols(0 := Fin 0), drawn = 0\<rparr>"
  have d: "nat m_obs = 0 \<or> isfinite ?delta \<and> isfinite (dsqrt ?delta)"
    using dt sizes by (auto simp: double_ops)
  obtain n where n: "nat n_obs = Suc n" using sizes by (cases "nat n_obs") auto
  have fin': "\<forall>i. 1 \<le> i \<and> i < Suc n \<longrightarrow> isfinite (sentiment i)" using fin(2) n by simp
  have "sim_volatility ?s0 0 = Fin 0" by simp
  with P fin(1) fin' d
  have "\<forall>i < Suc n.
          sim_volatility
            (fold (sim_obs_step P draws sentiment ?delta (dsqrt ?delta) (nat m_obs))
               [1..<Suc n] ?s0) i = Fin 0"
    by (rule sim_loop_volatility)
  then show ?thesis
    using sizes n by (simp add: simulate_joint_process_def output_volatility_def Let_def)
qed

theorem degenerate_volatility_path_witness:
  "output_volatility
     (simulate_joint_process (alternating_series 1) (constant_series 7) (constant_series 7)
        sentiment_01 still_parameters (Fin 1) 3 2 (Fin 100) (Fin 0)) 0 = Some (Fin 0)
   \<and> output_volatility
     (simulate_joint_process (alternating_series 1) (constant_series 7) (constant_series 7)
        sentiment_01 still_parameters (Fin 1) 3 2 (Fin 100) (Fin 0)) 1 = Some (Fin 0)
   \<and> output_volatility
     (simulate_joint_process (alternating_series 1) (constant_series 7) (constant_series 7)
        sentiment_01 still_parameters (Fin 1) 3 2 (Fin 100) (Fin 0)) 2 = Some (Fin 0)"
proof -
  have P: "gamma_v still_parameters = Fin 0" "mu_v still_parameters = Fin 0"
    "beta_v still_parameters = Fin 0" "sigma_v still_parameters = Fin 0"
    by (simp_all add: still_parameters_def)
  have fin: "\<forall>n. isfinite (alternating_series 1 n)"
    "\<forall>i. 1 \<le> i \<and> i < nat 3 \<longrightarrow> isfinite (sentiment_01 i)"
    by (simp_all add: alternating_series_def sentiment_01_def)
  have "\<forall>i < nat 3.
           output_volatility
             (simulate_joint_process (alternating_series 1) (constant_series 7)
                (constant_series 7) sentiment_01 still_parameters (Fin 1) 3 2 (Fin 100) (Fin 0)) i
           = Some (Fin 0)"
    using P fin by (intro degenerate_volatility_path [where t = 1]) simp_all
  then show ?thesis by simp
qed

section \<open>C10: the fast exit on a zero accumulator\<close>

text \<open>
  C10: the test of the fast exit is also true of a finite accumulator that is \<open>0\<close> or
  subnormal (\<open>|ll| < DBL_MIN\<close>), so with \<open>INFINITY_CHECK\<close> defined a call whose running
  log-likelihood has such a value after an observation step \<open>k\<close> returns \<open>max_double\<close>, at
  that step or before.
\<close>

theorem zero_accumulator_exit:
  assumes "7 \<le> length x" "sizes_defined w" "1 \<le> k" "k < nat (N_obs w)"
    and "ll (ll_after st_dev x w k) = Fin r" "\<bar>r\<bar> < DBL_MIN"
  shows "isfinite (ll (ll_after st_dev x w k))
       \<and> infinity_check (ll (ll_after st_dev x w k))
       \<and> (\<exists>k'. 1 \<le> k' \<and> k' \<le> k
            \<and> simulated_ll_joint True md st_dev x w
              = Some (md, wrapper (ll_after st_dev x w k')))"
proof -
  have fire: "infinity_check (ll (ll_after st_dev x w k))"
    using assms(5,6) by (simp add: infinity_check_cases)
  from fast_exit_at(1) [OF assms(1-4) fire] fire assms(5)
  show ?thesis by simp
qed

theorem zero_accumulator_exit_witness:
  "ll (ll_after st_dev_population example_x (example_wrapper flat_spread 2 0) 1) = Fin 0
   \<and> simulated_ll_joint True (Fin DBL_MAX) st_dev_population example_x
       (example_wrapper flat_spread 2 0)
     = Some (Fin DBL_MAX,
             wrapper (ll_after st_dev_population example_x (example_wrapper flat_spread 2 0) 1))
   \<and> map_option fst
       (simulated_ll_joint False (Fin DBL_MAX) st_dev_population example_x
          (example_wrapper flat_spread 2 0))
     = Some (Fin 0)"
proof -
  let ?w = "example_wrapper flat_spread 2 0"
  have zero: "ll (ll_after st_dev_population example_x ?w 1) = Fin 0"
    using example_ll_1 [OF flat_spread_pos, of 2 0] flat_spread_pos by simp
  have x: "7 \<le> length example_x" by (simp add: example_x_def)
  have w: "sizes_defined ?w" by (simp add: example_sizes_defined)
  have k: "(1::nat) \<le> 1" "1 < nat (N_obs ?w)" by (simp_all add: example_fields)
  have small: "\<bar>0::real\<bar> < DBL_MIN" by (simp add: DBL_MIN_def)
  have "k' = 1" if "1 \<le> k' \<and> k' \<le> 1" for k' :: nat using that by simp
  with zero_accumulator_exit [OF x w k zero small, of "Fin DBL_MAX"]
  have exit: "simulated_ll_joint True (Fin DBL_MAX) st_dev_population example_x ?w
     = Some (Fin DBL_MAX, wrapper (ll_after st_dev_population example_x ?w 1))"
    by auto
  have "map_option fst (simulated_ll_joint False (Fin DBL_MAX) st_dev_population example_x ?w)
      = Some (Fin 0)"
    using zero by (simp add: no_fast_exit [OF x w] example_fields double_ops)
  with zero exit show ?thesis by simp
qed

end
